theory Spec2Isabelle
  imports Main
begin

section \<open>Strings and formatting\<close>

text \<open>
  Go strings are byte sequences; they are modelled as \<open>string\<close>.  The few
  functions of the Go standard library that the program uses on strings are
  written out here the way the library computes them.
\<close>

text \<open>\<^verbatim>\<open>strings.HasPrefix\<close>: \<^verbatim>\<open>len(s) >= len(prefix) && s[:len(prefix)] == prefix\<close>.\<close>

definition HasPrefix :: "string \<Rightarrow> string \<Rightarrow> bool" where
  "HasPrefix s pre = (length pre \<le> length s \<and> take (length pre) s = pre)"

text \<open>
  \<^verbatim>\<open>strings.Join\<close>: the empty string for no element, the element itself for one,
  and otherwise a builder that receives the first element and then, for each
  further element, the separator and the element.
\<close>

definition Join :: "string list \<Rightarrow> string \<Rightarrow> string" where
  "Join elems sep =
     (case elems of
        [] \<Rightarrow> []
      | [e] \<Rightarrow> e
      | e # rest \<Rightarrow> fold (\<lambda>s b. b @ sep @ s) rest e)"

text \<open>The verb \<^verbatim>\<open>%d\<close> of \<^verbatim>\<open>fmt\<close> on an \<^verbatim>\<open>int\<close>: decimal digits, with a minus sign.\<close>

definition digit :: "nat \<Rightarrow> char" where
  "digit d = ''0123456789'' ! d"

function decimal :: "nat \<Rightarrow> string" where
  "decimal n = (if n < 10 then [digit n] else decimal (n div 10) @ [digit (n mod 10)])"
  by pat_completeness auto
termination
  by (relation "measure (\<lambda>n. n)") auto

declare decimal.simps [simp del]

definition fmt_d :: "int \<Rightarrow> string" where
  "fmt_d i = (if i < 0 then ''-'' @ decimal (nat (- i)) else decimal (nat i))"

text \<open>The verb \<^verbatim>\<open>%v\<close> on a \<^verbatim>\<open>[]string\<close>: the elements between brackets, separated by spaces.\<close>

definition fmt_v_strings :: "string list \<Rightarrow> string" where
  "fmt_v_strings xs = ''['' @ Join xs '' '' @ '']''"

section \<open>The API client (package client)\<close>

subsection \<open>Errors\<close>

text \<open>\<^verbatim>\<open>apiError\<close>, the error payload of the remote API (the field \<^verbatim>\<open>Detail\<close> is never read).\<close>

record apiError =
  Code :: string
  Message :: string

text \<open>\<^verbatim>\<open>func (e apiError) Error() string\<close>\<close>

definition apiError_Error :: "apiError \<Rightarrow> string" where
  "apiError_Error e =
     (if Code e = '''' \<and> Message e = '''' then ''capella api error''
      else if Code e = '''' then Message e
      else if Message e = '''' then Code e
      else Code e @ '': '' @ Message e)"

text \<open>
  The values of Go's \<^verbatim>\<open>error\<close> that occur: an error that is only a message
  (\<^verbatim>\<open>fmt.Errorf\<close> without \<^verbatim>\<open>%w\<close>, and the errors of the libraries), and the error
  \<^verbatim>\<open>fmt.Errorf("%w (status %d)", ae, resp.StatusCode)\<close> that wraps an \<^verbatim>\<open>apiError\<close>.
\<close>

datatype go_error =
    ErrorString string
  | ApiStatusError apiError int

text \<open>The method \<^verbatim>\<open>Error()\<close> of these values.\<close>

fun error_message :: "go_error \<Rightarrow> string" where
  "error_message (ErrorString s) = s"
| "error_message (ApiStatusError ae status) =
     apiError_Error ae @ '' (status '' @ fmt_d status @ '')''"

subsection \<open>Requests and responses\<close>

text \<open>
  \<^verbatim>\<open>url.URL\<close>, as far as the client touches it: everything before the query as
  one string, and the query as the decoded \<^verbatim>\<open>url.Values\<close>, which
  \<^verbatim>\<open>u.Query()\<close> reads and \<^verbatim>\<open>u.RawQuery = q.Encode()\<close> writes back.
\<close>

record URL =
  Location :: string
  Values :: "string \<rightharpoonup> string list"

text \<open>The body that \<^verbatim>\<open>BuildDeferredIndexes\<close> posts.\<close>

record IndexDefinition =
  Definition :: string

text \<open>
  An outgoing \<^verbatim>\<open>http.Request\<close>.  The body is kept as the Go value that \<^verbatim>\<open>Do\<close>
  JSON-encodes; the only value this program sends is an \<^verbatim>\<open>IndexDefinition\<close>, a
  struct of one string, whose encoding cannot fail.
\<close>

record Request =
  Method :: string
  Target :: URL
  Header :: "string \<rightharpoonup> string list"
  Body :: "IndexDefinition option"

record Response =
  StatusCode :: int
  RespBody :: string

text \<open>
  \<^verbatim>\<open>http.Header.Set\<close> and \<^verbatim>\<open>http.Header.Get\<close>.  Every key the program sets
  (\<^verbatim>\<open>Authorization\<close>, \<^verbatim>\<open>Accept\<close>, \<^verbatim>\<open>Content-Type\<close>, \<^verbatim>\<open>User-Agent\<close>) is in
  canonical form already, so that the canonicalisation of the key is the identity.
\<close>

definition Header_Set :: "(string \<rightharpoonup> string list) \<Rightarrow> string \<Rightarrow> string \<Rightarrow> (string \<rightharpoonup> string list)" where
  "Header_Set h k v = h(k \<mapsto> [v])"

definition Header_Get :: "(string \<rightharpoonup> string list) \<Rightarrow> string \<Rightarrow> string" where
  "Header_Get h k = (case h k of None \<Rightarrow> '''' | Some [] \<Rightarrow> '''' | Some (v # _) \<Rightarrow> v)"

subsection \<open>Authenticators\<close>

text \<open>
  \<^verbatim>\<open>type Authenticator interface { Apply(req *http.Request) error }\<close>: an
  implementation may change the request and may fail.
\<close>

type_synonym Authenticator = "Request \<Rightarrow> Request \<times> go_error option"

text \<open>\<^verbatim>\<open>func (a BearerTokenAuth) Apply(req *http.Request) error\<close>\<close>

definition BearerTokenAuth_Apply :: "string \<Rightarrow> Authenticator" where
  "BearerTokenAuth_Apply Token req =
     (if Token = '''' then (req, None)
      else (req\<lparr>Header := Header_Set (Header req) ''Authorization'' (''Bearer '' @ Token)\<rparr>, None))"

subsection \<open>The client\<close>

text \<open>
  What \<^verbatim>\<open>json.Decoder.Decode\<close> does to the target \<^verbatim>\<open>out\<close>: it reports
  \<^verbatim>\<open>io.EOF\<close> on an empty body and leaves the target alone, or fails with the
  target as far as it was filled, or succeeds.  The target is a pointer to a
  pointer that starts \<^verbatim>\<open>nil\<close>; it stays \<^verbatim>\<open>nil\<close> (\<open>None\<close>) when the body is the JSON
  \<^verbatim>\<open>null\<close>.
\<close>

datatype 'o decoded =
    DecodeEOF
  | DecodeError go_error "'o option"
  | Decoded "'o option"

text \<open>
  The two response types of the package \<^verbatim>\<open>indexes\<close> that \<^verbatim>\<open>Do\<close> decodes into.
\<close>

record IndexBuildStatusResponse =
  Status :: string

record IndexBuildResponse =
  Error :: "string option"

text \<open>
  The library functions that \<^verbatim>\<open>Do\<close> and the package \<^verbatim>\<open>indexes\<close> call and that
  are not part of this repository (\<^verbatim>\<open>net/url\<close>, \<^verbatim>\<open>path\<close>, \<^verbatim>\<open>strings\<close>,
  \<^verbatim>\<open>retryablehttp\<close>, \<^verbatim>\<open>encoding/json\<close>) are parameters of the model.
  \<open>json_Unmarshal_apiError\<close> is \<open>None\<close> when \<^verbatim>\<open>json.Unmarshal\<close> fails; the two
  decoders are \<^verbatim>\<open>Decode\<close> with \<^verbatim>\<open>DisallowUnknownFields\<close> at the two target types.
\<close>

record library =
  url_Parse :: "string \<Rightarrow> go_error + URL"
  url_ResolveReference :: "URL \<Rightarrow> string \<Rightarrow> URL"
  url_PathEscape :: "string \<Rightarrow> string"
  path_Clean :: "string \<Rightarrow> string"
  strings_TrimSpace :: "string \<Rightarrow> string"
  NewRequest_error :: "string \<Rightarrow> URL \<Rightarrow> go_error option"
  json_Unmarshal_apiError :: "string \<Rightarrow> apiError option"
  json_Decode_status :: "string \<Rightarrow> IndexBuildStatusResponse decoded"
  json_Decode_build :: "string \<Rightarrow> IndexBuildResponse decoded"

text \<open>
  \<^verbatim>\<open>type Client struct\<close>.  The field \<^verbatim>\<open>HTTP\<close> is the transport together with the
  remote service behind it: it answers a request in a state \<open>'w\<close> of the remote
  world with a transport error or a response, and the next state.
  The transport is \<^verbatim>\<open>retryablehttp\<close>: what it returns is the outcome after its retries.
  With the policy that \<^verbatim>\<open>NewClient\<close> leaves in place it retries a response with the
  status 429 or 5xx and, when it gives up, returns an error and no response.
\<close>

record 'w Client =
  BaseURL :: "URL option"
  HTTP :: "Request \<Rightarrow> 'w \<Rightarrow> (go_error + Response) \<times> 'w"
  Auth :: "Authenticator option"
  UserAgent :: string

text \<open>
  The first half of \<^verbatim>\<open>Do\<close>: the URL (lines 170 to 192), the request and its
  headers, and the authenticator (lines 206 to 226).
\<close>

definition Do_url :: "library \<Rightarrow> 'w Client \<Rightarrow> string \<Rightarrow> (string \<times> string) list \<Rightarrow> go_error + URL" where
  "Do_url lib c p query =
     (case BaseURL c of
        None \<Rightarrow> Inl (ErrorString ''client BaseURL not configured'')
      | Some base \<Rightarrow>
          (case (if HasPrefix p ''http://'' \<or> HasPrefix p ''https://''
                 then url_Parse lib p
                 else Inr (url_ResolveReference lib base
                             (path_Clean lib (''/'' @ strings_TrimSpace lib p)))) of
             Inl e \<Rightarrow> Inl e
           | Inr u \<Rightarrow>
               Inr (if length query > 0
                    then u\<lparr>Values := fold (\<lambda>(k, v) q. q(k \<mapsto> [v])) query (Values u)\<rparr>
                    else u)))"

definition Do_request ::
  "library \<Rightarrow> 'w Client \<Rightarrow> string \<Rightarrow> string \<Rightarrow> (string \<times> string) list \<Rightarrow> IndexDefinition option
     \<Rightarrow> go_error + Request" where
  "Do_request lib c method p query body =
     (case Do_url lib c p query of
        Inl e \<Rightarrow> Inl e
      | Inr u \<Rightarrow>
          (case NewRequest_error lib method u of
             Some e \<Rightarrow> Inl e
           | None \<Rightarrow>
               (let req0 = \<lparr>Method = method, Target = u, Header = Map.empty, Body = body\<rparr>;
                    req1 = (if body \<noteq> None
                            then req0\<lparr>Header := Header_Set (Header req0) ''Content-Type'' ''application/json''\<rparr>
                            else req0);
                    req2 = req1\<lparr>Header := Header_Set (Header req1) ''Accept'' ''application/json''\<rparr>;
                    req3 = (if UserAgent c \<noteq> ''''
                            then req2\<lparr>Header := Header_Set (Header req2) ''User-Agent'' (UserAgent c)\<rparr>
                            else req2)
                in case Auth c of
                     None \<Rightarrow> Inr req3
                   | Some a \<Rightarrow>
                       (case a req3 of
                          (req4, Some e) \<Rightarrow> Inl e
                        | (req4, None) \<Rightarrow> Inr req4))))"

text \<open>
  The branch of \<^verbatim>\<open>Do\<close> for a status code outside 200 to 299 (lines 242 to 251):
  the error that is returned beside the response.
\<close>

definition Do_status_error :: "library \<Rightarrow> Response \<Rightarrow> go_error" where
  "Do_status_error lib resp =
     (let b = RespBody resp in
      case json_Unmarshal_apiError lib b of
        None \<Rightarrow>
          ErrorString (''capella api request failed: status '' @ fmt_d (StatusCode resp)
                         @ '', body: '' @ b)
      | Some ae \<Rightarrow>
          if Code ae \<noteq> '''' \<or> Message ae \<noteq> ''''
          then ApiStatusError ae (StatusCode resp)
          else ErrorString (''capella api request failed: status '' @ fmt_d (StatusCode resp)
                              @ '', body: '' @ b))"

text \<open>
  \<^verbatim>\<open>func (c *Client) Do(ctx, method, p, query, body, out)\<close>.  The result is the
  pair that Go returns (response and error, each of which may be \<^verbatim>\<open>nil\<close>), the
  value left in \<^verbatim>\<open>*out\<close>, and the next state of the remote world.  \<open>out\<close> is
  \<open>None\<close> for a \<^verbatim>\<open>nil\<close> target and otherwise the decoder of the target's type.
  The deferred function only drains and closes the body.
\<close>

definition Do ::
  "library \<Rightarrow> 'w Client \<Rightarrow> string \<Rightarrow> string \<Rightarrow> (string \<times> string) list \<Rightarrow> IndexDefinition option
     \<Rightarrow> (string \<Rightarrow> 'o decoded) option \<Rightarrow> 'w
     \<Rightarrow> (Response option \<times> 'o option \<times> go_error option) \<times> 'w" where
  "Do lib c method p query body out w =
     (case Do_request lib c method p query body of
        Inl e \<Rightarrow> ((None, None, Some e), w)
      | Inr req \<Rightarrow>
          (case HTTP c req w of
             (Inl e, w') \<Rightarrow> ((None, None, Some e), w')
           | (Inr resp, w') \<Rightarrow>
               if StatusCode resp < 200 \<or> StatusCode resp \<ge> 300
               then ((Some resp, None, Some (Do_status_error lib resp)), w')
               else (case out of
                       None \<Rightarrow> ((Some resp, None, None), w')
                     | Some dec \<Rightarrow>
                         (case dec (RespBody resp) of
                            DecodeEOF \<Rightarrow> ((Some resp, None, None), w')
                          | DecodeError e v \<Rightarrow> ((Some resp, v, Some e), w')
                          | Decoded v \<Rightarrow> ((Some resp, v, None), w')))))"

text \<open>\<^verbatim>\<open>func (c *Client) Get\<close> and \<^verbatim>\<open>func (c *Client) Post\<close>\<close>

definition Get ::
  "library \<Rightarrow> 'w Client \<Rightarrow> string \<Rightarrow> (string \<times> string) list \<Rightarrow> (string \<Rightarrow> 'o decoded) option \<Rightarrow> 'w
     \<Rightarrow> (Response option \<times> 'o option \<times> go_error option) \<times> 'w" where
  "Get lib c p query out w = Do lib c ''GET'' p query None out w"

definition Post ::
  "library \<Rightarrow> 'w Client \<Rightarrow> string \<Rightarrow> IndexDefinition \<Rightarrow> (string \<Rightarrow> 'o decoded) option \<Rightarrow> 'w
     \<Rightarrow> (Response option \<times> 'o option \<times> go_error option) \<times> 'w" where
  "Post lib c p body out w = Do lib c ''POST'' p [] (Some body) out w"

section \<open>Index operations (package indexes)\<close>

record IndexBuildStatusRequest =
  OrganizationId :: string
  ProjectId :: string
  ClusterId :: string
  Bucket :: string
  IndexName :: string
  Scope :: string
  Collection :: string

record IndexBuildRequest =
  b_OrganizationId :: string
  b_ProjectId :: string
  b_ClusterId :: string
  b_Bucket :: string
  IndexNames :: "string list"
  b_Scope :: string
  b_Collection :: string

text \<open>\<^verbatim>\<open>GetIndexBuildStatus\<close>: the path, the query parameters, and the call of \<^verbatim>\<open>c.Get\<close>.\<close>

definition status_path :: "library \<Rightarrow> IndexBuildStatusRequest \<Rightarrow> string" where
  "status_path lib req =
     ''v4/organizations/'' @ OrganizationId req @ ''/projects/'' @ ProjectId req
       @ ''/clusters/'' @ ClusterId req @ ''/queryService/indexBuildStatus/''
       @ url_PathEscape lib (IndexName req)"

definition status_params :: "IndexBuildStatusRequest \<Rightarrow> (string \<times> string) list" where
  "status_params req =
     [(''bucket'', Bucket req), (''scope'', Scope req), (''collection'', Collection req)]"

definition GetIndexBuildStatus ::
  "library \<Rightarrow> 'w Client \<Rightarrow> IndexBuildStatusRequest \<Rightarrow> 'w
     \<Rightarrow> (IndexBuildStatusResponse option \<times> go_error option) \<times> 'w" where
  "GetIndexBuildStatus lib c req w =
     (case Get lib c (status_path lib req) (status_params req) (Some (json_Decode_status lib)) w of
        ((_, res, err), w') \<Rightarrow> ((res, err), w'))"

text \<open>\<^verbatim>\<open>BuildDeferredIndexes\<close>: the statement, the path, and the call of \<^verbatim>\<open>c.Post\<close>.\<close>

definition build_definition :: "IndexBuildRequest \<Rightarrow> IndexDefinition" where
  "build_definition req =
     \<lparr>Definition = ''BUILD INDEX ON `'' @ b_Bucket req @ ''`.`'' @ b_Scope req @ ''`.`''
                     @ b_Collection req @ ''`('' @ Join (IndexNames req) '', '' @ '')''\<rparr>"

definition build_path :: "IndexBuildRequest \<Rightarrow> string" where
  "build_path req =
     ''v4/organizations/'' @ b_OrganizationId req @ ''/projects/'' @ b_ProjectId req
       @ ''/clusters/'' @ b_ClusterId req @ ''/queryService/indexes''"

definition BuildDeferredIndexes ::
  "library \<Rightarrow> 'w Client \<Rightarrow> IndexBuildRequest \<Rightarrow> 'w
     \<Rightarrow> (IndexBuildResponse option \<times> go_error option) \<times> 'w" where
  "BuildDeferredIndexes lib c req w =
     (case Post lib c (build_path req) (build_definition req) (Some (json_Decode_build lib)) w of
        ((_, res, err), w') \<Rightarrow> ((res, err), w'))"

text \<open>
  Modelled from the spec: \<^verbatim>\<open>indexes.WaitForScheduledIndexCreation\<close> is called by
  \<^verbatim>\<open>Invoke\<close> and its source is missing.  The spec describes it as a blocking wait
  that re-polls the status until it leaves the scheduled state, and that must
  end in bounded time with a status or with a timeout or an error.  The model
  re-polls with \<open>GetIndexBuildStatus\<close> at most \<open>polls\<close> times: a poll that fails, or
  that returns a status other than the scheduled one, ends the wait with the
  result of that poll, and the wait fails with a timeout when the polls are used up.
\<close>

fun WaitForScheduledIndexCreation ::
  "library \<Rightarrow> nat \<Rightarrow> 'w Client \<Rightarrow> IndexBuildStatusRequest \<Rightarrow> 'w
     \<Rightarrow> (IndexBuildStatusResponse option \<times> go_error option) \<times> 'w" where
  "WaitForScheduledIndexCreation lib 0 c req w =
     ((None, Some (ErrorString ''timed out waiting for scheduled index creation'')), w)"
| "WaitForScheduledIndexCreation lib (Suc polls) c req w =
     (case GetIndexBuildStatus lib c req w of
        ((res, err), w') \<Rightarrow>
          (case err of
             Some e \<Rightarrow> ((res, err), w')
           | None \<Rightarrow>
               (case res of
                  None \<Rightarrow> ((res, err), w')
                | Some r \<Rightarrow>
                    if Status r = ''Scheduled for Creation''
                    then WaitForScheduledIndexCreation lib polls c req w'
                    else ((res, err), w'))))"

section \<open>The build action (package actions)\<close>

subsection \<open>Values of the plugin framework\<close>

text \<open>\<^verbatim>\<open>types.String\<close> with \<^verbatim>\<open>IsNull\<close> and \<^verbatim>\<open>ValueString\<close>.\<close>

datatype tfString = StringNull | StringUnknown | StringValue string

fun IsNull :: "tfString \<Rightarrow> bool" where
  "IsNull StringNull = True"
| "IsNull StringUnknown = False"
| "IsNull (StringValue s) = False"

fun ValueString :: "tfString \<Rightarrow> string" where
  "ValueString StringNull = ''''"
| "ValueString StringUnknown = ''''"
| "ValueString (StringValue s) = s"

text \<open>\<^verbatim>\<open>diag.Diagnostics\<close>: \<^verbatim>\<open>Append\<close> skips a diagnostic that is already present.\<close>

datatype diagnostic =
    ErrorDiagnostic string string
  | WarningDiagnostic string string

fun is_error :: "diagnostic \<Rightarrow> bool" where
  "is_error (ErrorDiagnostic summary detail) = True"
| "is_error (WarningDiagnostic summary detail) = False"

definition HasError :: "diagnostic list \<Rightarrow> bool" where
  "HasError ds = list_ex is_error ds"

definition Append :: "diagnostic list \<Rightarrow> diagnostic list \<Rightarrow> diagnostic list" where
  "Append ds new = fold (\<lambda>d acc. if d \<in> set acc then acc else acc @ [d]) new ds"

definition AddError :: "diagnostic list \<Rightarrow> string \<Rightarrow> string \<Rightarrow> diagnostic list" where
  "AddError ds summary detail = Append ds [ErrorDiagnostic summary detail]"

text \<open>
  \<^verbatim>\<open>types.List\<close> is opaque to the action, which only calls
  \<^verbatim>\<open>ElementsAs(ctx, &indexNames, false)\<close> on it: a list value is represented by
  the diagnostics and the slice of strings which that call yields.  A list of
  known strings yields no diagnostic and its elements; the empty list is
  \<open>TfList [] []\<close>.
\<close>

datatype tfList = TfList "diagnostic list" "string list"

fun ElementsAs :: "tfList \<Rightarrow> diagnostic list \<times> string list" where
  "ElementsAs (TfList diags elems) = (diags, elems)"

text \<open>\<^verbatim>\<open>type BuildIndexActionModel struct\<close>\<close>

record BuildIndexActionModel =
  m_OrganizationId :: tfString
  m_ProjectId :: tfString
  m_ClusterId :: tfString
  m_BucketName :: tfString
  m_IndexNames :: tfList
  m_ScopeName :: tfString
  m_CollectionName :: tfString

text \<open>
  \<^verbatim>\<open>action.InvokeRequest\<close>, represented by what \<^verbatim>\<open>req.Config.Get(ctx, &data)\<close>
  yields: its diagnostics and the model it fills.
\<close>

record InvokeRequest =
  Config_diags :: "diagnostic list"
  Config_data :: BuildIndexActionModel

subsection \<open>Invoke\<close>

text \<open>
  The calls of the package \<^verbatim>\<open>indexes\<close> that an invocation makes, each with its
  request and with what it returned, in the order in which they are made.  The
  list is kept beside the state of the program in order to state properties of
  the calls; the program does not read it.
\<close>

datatype call =
    StatusCall IndexBuildStatusRequest "IndexBuildStatusResponse option \<times> go_error option"
  | WaitCall IndexBuildStatusRequest "IndexBuildStatusResponse option \<times> go_error option"
  | BuildCall IndexBuildRequest "IndexBuildResponse option \<times> go_error option"

text \<open>
  How the control stands: \<open>Running\<close> inside the function, \<open>Returned\<close> after a
  \<^verbatim>\<open>return\<close> or the end of the function, \<open>Panicked\<close> after the dereference of a
  \<^verbatim>\<open>nil\<close> response (\<^verbatim>\<open>res.Status\<close> when the call returned neither a response nor
  an error).
\<close>

datatype control = Running | Returned | Panicked

text \<open>
  The state of an invocation: the response under construction
  (\<^verbatim>\<open>resp.Diagnostics\<close>, and the messages passed to \<^verbatim>\<open>resp.SendProgress\<close>), the
  local \<^verbatim>\<open>buildIndexes\<close>, the control, the calls made and the remote world.
\<close>

record 'w invocation =
  Diagnostics :: "diagnostic list"
  Progress :: "string list"
  buildIndexes :: "string list"
  control :: control
  calls :: "call list"
  remote :: 'w

text \<open>The request \<^verbatim>\<open>ibReq\<close> of lines 135 to 143, and the request of lines 187 to 195.\<close>

definition status_request ::
  "BuildIndexActionModel \<Rightarrow> string \<Rightarrow> string \<Rightarrow> string \<Rightarrow> IndexBuildStatusRequest" where
  "status_request data scope collection indexName =
     \<lparr>OrganizationId = ValueString (m_OrganizationId data),
      ProjectId = ValueString (m_ProjectId data),
      ClusterId = ValueString (m_ClusterId data),
      Bucket = ValueString (m_BucketName data),
      IndexName = indexName,
      Scope = scope,
      Collection = collection\<rparr>"

definition build_request ::
  "BuildIndexActionModel \<Rightarrow> string \<Rightarrow> string \<Rightarrow> string list \<Rightarrow> IndexBuildRequest" where
  "build_request data scope collection names =
     \<lparr>b_OrganizationId = ValueString (m_OrganizationId data),
      b_ProjectId = ValueString (m_ProjectId data),
      b_ClusterId = ValueString (m_ClusterId data),
      b_Bucket = ValueString (m_BucketName data),
      IndexNames = names,
      b_Scope = scope,
      b_Collection = collection\<rparr>"

text \<open>Lines 169 to 171: the index joins the batch when the status is \<^verbatim>\<open>Created\<close>.\<close>

definition collect :: "string \<Rightarrow> IndexBuildStatusResponse \<Rightarrow> 'w invocation \<Rightarrow> 'w invocation" where
  "collect indexName res s =
     (if Status res = ''Created''
      then s\<lparr>buildIndexes := buildIndexes s @ [indexName]\<rparr>
      else s)"

text \<open>The body of the loop over \<^verbatim>\<open>indexNames\<close> (lines 135 to 171).\<close>

definition Invoke_index ::
  "library \<Rightarrow> nat \<Rightarrow> 'w Client \<Rightarrow> BuildIndexActionModel \<Rightarrow> string \<Rightarrow> string \<Rightarrow> string
     \<Rightarrow> 'w invocation \<Rightarrow> 'w invocation" where
  "Invoke_index lib polls c data scope collection indexName s =
     (let ibReq = status_request data scope collection indexName
      in case GetIndexBuildStatus lib c ibReq (remote s) of
           ((res, err), w1) \<Rightarrow>
             (let s1 = s\<lparr>calls := calls s @ [StatusCall ibReq (res, err)], remote := w1\<rparr>
              in case err of
                   Some e \<Rightarrow>
                     s1\<lparr>Diagnostics :=
                          AddError (Diagnostics s1) ''Get Index Build Status Failed''
                            (''Cannot get index build status for index '' @ indexName
                               @ ''.  Error: '' @ error_message e @ ''\<newline>''),
                        control := Returned\<rparr>
                 | None \<Rightarrow>
                     (case res of
                        None \<Rightarrow> s1\<lparr>control := Panicked\<rparr>
                      | Some r \<Rightarrow>
                          (let s2 = s1\<lparr>Progress := Progress s1
                                         @ [''Index: '' @ indexName @ '', Status: '' @ Status r]\<rparr>
                           in if Status r = ''Scheduled for Creation''
                              then
                                (case WaitForScheduledIndexCreation lib polls c ibReq (remote s2) of
                                   ((res', err'), w2) \<Rightarrow>
                                     (let s3 = s2\<lparr>calls := calls s2 @ [WaitCall ibReq (res', err')],
                                                  remote := w2\<rparr>
                                      in case err' of
                                           Some e' \<Rightarrow>
                                             s3\<lparr>Diagnostics :=
                                                  AddError (Diagnostics s3)
                                                    ''Wait for Scheduled Index Creation Failed''
                                                    (''Cannot wait for scheduled index creation for index ''
                                                       @ indexName @ ''.  Error: ''
                                                       @ error_message e' @ ''\<newline>''),
                                                control := Returned\<rparr>
                                         | None \<Rightarrow>
                                             (case res' of
                                                None \<Rightarrow> s3\<lparr>control := Panicked\<rparr>
                                              | Some r' \<Rightarrow> collect indexName r' s3)))
                              else collect indexName r s2))))"

text \<open>The loop: it stops at the first index whose body returns or panics.\<close>

fun Invoke_loop ::
  "library \<Rightarrow> nat \<Rightarrow> 'w Client \<Rightarrow> BuildIndexActionModel \<Rightarrow> string \<Rightarrow> string \<Rightarrow> string list
     \<Rightarrow> 'w invocation \<Rightarrow> 'w invocation" where
  "Invoke_loop lib polls c data scope collection [] s = s"
| "Invoke_loop lib polls c data scope collection (indexName # rest) s =
     (let s' = Invoke_index lib polls c data scope collection indexName s
      in if control s' = Running
         then Invoke_loop lib polls c data scope collection rest s'
         else s')"

text \<open>Lines 174 to 208: after the loop.\<close>

definition Invoke_build ::
  "library \<Rightarrow> 'w Client \<Rightarrow> BuildIndexActionModel \<Rightarrow> string \<Rightarrow> string
     \<Rightarrow> 'w invocation \<Rightarrow> 'w invocation" where
  "Invoke_build lib c data scope collection s =
     (if length (buildIndexes s) = 0
      then s\<lparr>Progress := Progress s @ [''No indexes need built''], control := Returned\<rparr>
      else
        (let s1 = s\<lparr>Progress := Progress s
                       @ [''The following indexes need built: '' @ fmt_v_strings (buildIndexes s)]\<rparr>;
             bReq = build_request data scope collection (buildIndexes s)
         in case BuildDeferredIndexes lib c bReq (remote s1) of
              ((res, err), w1) \<Rightarrow>
                (let s2 = s1\<lparr>calls := calls s1 @ [BuildCall bReq (res, err)], remote := w1\<rparr>
                 in case err of
                      Some e \<Rightarrow>
                        s2\<lparr>Diagnostics :=
                             AddError (Diagnostics s2) ''Build Deferred Indexes Failed''
                               (''Cannot build deferred indexes.  Error: '' @ error_message e
                                  @ ''\<newline>''),
                           control := Returned\<rparr>
                    | None \<Rightarrow>
                        s2\<lparr>Progress := Progress s2
                             @ [''finished action invocation, Indexes will be built in the background.''],
                           control := Returned\<rparr>)))"

text \<open>The defaults of the optional attributes (lines 114 to 124).\<close>

definition default_name :: "tfString \<Rightarrow> string" where
  "default_name a = (if IsNull a then ''_default'' else ValueString a)"

text \<open>
  \<^verbatim>\<open>func (bi *BuildIndexAction) Invoke(ctx, req, resp)\<close>, on the response that
  the framework hands over (no diagnostic yet), with the client \<open>c\<close> of the
  action and the remote world in the state \<open>w\<close>.
\<close>

definition Invoke ::
  "library \<Rightarrow> nat \<Rightarrow> 'w Client \<Rightarrow> InvokeRequest \<Rightarrow> 'w \<Rightarrow> 'w invocation" where
  "Invoke lib polls c req w =
     (let data = Config_data req;
          s0 = \<lparr>Diagnostics = Append [] (Config_diags req), Progress = [], buildIndexes = [],
                control = Running, calls = [], remote = w\<rparr>
      in if HasError (Diagnostics s0) then s0\<lparr>control := Returned\<rparr>
         else
           (let scope = default_name (m_ScopeName data);
                collection = default_name (m_CollectionName data)
            in case ElementsAs (m_IndexNames data) of
                 (diags, indexNames) \<Rightarrow>
                   (let s1 = s0\<lparr>Diagnostics := Append (Diagnostics s0) diags\<rparr>
                    in if HasError (Diagnostics s1) then s1\<lparr>control := Returned\<rparr>
                       else
                         (let s2 = Invoke_loop lib polls c data scope collection indexNames s1
                          in if control s2 = Running
                             then Invoke_build lib c data scope collection s2
                             else s2))))"

section \<open>Vocabulary of the properties\<close>

text \<open>The names of a list joined by a separator, as a specification of \<open>Join\<close>.\<close>

fun joined_by :: "string \<Rightarrow> string list \<Rightarrow> string" where
  "joined_by sep [] = []"
| "joined_by sep [x] = x"
| "joined_by sep (x # y # ys) = x @ sep @ joined_by sep (y # ys)"

text \<open>The index names of a build call; the index of a status query; a status query that failed.\<close>

fun built :: "call \<Rightarrow> string list option" where
  "built (BuildCall r out) = Some (IndexNames r)"
| "built (StatusCall r out) = None"
| "built (WaitCall r out) = None"

fun status_index :: "call \<Rightarrow> string option" where
  "status_index (StatusCall r out) = Some (IndexName r)"
| "status_index (WaitCall r out) = None"
| "status_index (BuildCall r out) = None"

fun failed_status :: "call \<Rightarrow> bool" where
  "failed_status (StatusCall r out) = (snd out \<noteq> None)"
| "failed_status (WaitCall r out) = False"
| "failed_status (BuildCall r out) = False"

text \<open>The status that a status query or a wait returned, when it returned one without an error.\<close>

definition returned_status :: "(IndexBuildStatusResponse option \<times> go_error option) \<Rightarrow> string option" where
  "returned_status out = (case out of (Some r, None) \<Rightarrow> Some (Status r) | _ \<Rightarrow> None)"

text \<open>
  \<open>reports_Created\<close>: the final status of the index is \<^verbatim>\<open>Created\<close>, that is, a status
  query returns \<^verbatim>\<open>Created\<close>, or it returns the scheduled state and the wait that follows
  returns \<^verbatim>\<open>Created\<close>.  \<open>reports_other\<close>: a status query returns a status that is
  neither \<^verbatim>\<open>Created\<close> nor the scheduled state.
\<close>

fun reports_Created :: "call \<Rightarrow> bool" where
  "reports_Created (StatusCall r out) =
     (returned_status out = Some ''Created'' \<or> returned_status out = Some ''Scheduled for Creation'')"
| "reports_Created (WaitCall r out) = (returned_status out = Some ''Created'')"
| "reports_Created (BuildCall r out) = True"

fun reports_other :: "call \<Rightarrow> bool" where
  "reports_other (StatusCall r out) =
     (case returned_status out of
        None \<Rightarrow> False
      | Some st \<Rightarrow> st \<noteq> ''Created'' \<and> st \<noteq> ''Scheduled for Creation'')"
| "reports_other (WaitCall r out) = True"
| "reports_other (BuildCall r out) = True"

text \<open>
  A call uses the scope \<open>sc\<close> and the collection \<open>co\<close>: as the query parameters of a status
  query (also one made by the wait), and in the statement of a build call.
\<close>

fun uses_namespace :: "string \<Rightarrow> string \<Rightarrow> call \<Rightarrow> bool" where
  "uses_namespace sc co (StatusCall r out) =
     (map_of (status_params r) ''scope'' = Some sc \<and> map_of (status_params r) ''collection'' = Some co)"
| "uses_namespace sc co (WaitCall r out) =
     (map_of (status_params r) ''scope'' = Some sc \<and> map_of (status_params r) ''collection'' = Some co)"
| "uses_namespace sc co (BuildCall r out) =
     (Definition (build_definition r) =
        ''BUILD INDEX ON `'' @ b_Bucket r @ ''`.`'' @ sc @ ''`.`'' @ co @ ''`(''
          @ Join (IndexNames r) '', '' @ '')'')"


text \<open>The diagnostic of a failed status query (lines 146 to 149).\<close>

definition status_failure :: "string \<Rightarrow> go_error \<Rightarrow> diagnostic" where
  "status_failure n e =
     ErrorDiagnostic ''Get Index Build Status Failed''
       (''Cannot get index build status for index '' @ n @ ''.  Error: '' @ error_message e @ ''\<newline>'')"

text \<open>The state in which the loop starts.\<close>

definition start :: "diagnostic list \<Rightarrow> 'w \<Rightarrow> 'w invocation" where
  "start ds w =
     \<lparr>Diagnostics = ds, Progress = [], buildIndexes = [], control = Running, calls = [], remote = w\<rparr>"

text \<open>
  The calls of a list made one after the other on the remote world, by the functions of
  the package \<^verbatim>\<open>indexes\<close> themselves: \<open>replay\<close> is the state of the remote world after the
  last of them, provided that each call returns what the list says it returned.
\<close>

fun perform :: "library \<Rightarrow> nat \<Rightarrow> 'w Client \<Rightarrow> call \<Rightarrow> 'w \<Rightarrow> 'w option" where
  "perform lib polls c (StatusCall r out) w =
     (case GetIndexBuildStatus lib c r w of (out', w') \<Rightarrow> if out' = out then Some w' else None)"
| "perform lib polls c (WaitCall r out) w =
     (case WaitForScheduledIndexCreation lib polls c r w of
        (out', w') \<Rightarrow> if out' = out then Some w' else None)"
| "perform lib polls c (BuildCall r out) w =
     (case BuildDeferredIndexes lib c r w of (out', w') \<Rightarrow> if out' = out then Some w' else None)"

fun replay :: "library \<Rightarrow> nat \<Rightarrow> 'w Client \<Rightarrow> call list \<Rightarrow> 'w \<Rightarrow> 'w option" where
  "replay lib polls c [] w = Some w"
| "replay lib polls c (e # rest) w =
     (case perform lib polls c e w of
        None \<Rightarrow> None
      | Some w' \<Rightarrow> replay lib polls c rest w')"

text \<open>
  A client that hands every request to the transport of \<open>c\<close> and keeps, beside the state
  of the remote world, the list of the requests handed over so far; \<open>observe\<close> forgets
  that list again.
\<close>

definition recording :: "'w Client \<Rightarrow> (Request list \<times> 'w) Client" where
  "recording c =
     \<lparr>BaseURL = BaseURL c,
      HTTP = (\<lambda>req lw. case HTTP c req (snd lw) of (r, w') \<Rightarrow> (r, (fst lw @ [req], w'))),
      Auth = Auth c,
      UserAgent = UserAgent c\<rparr>"

definition observe :: "(Request list \<times> 'w) invocation \<Rightarrow> 'w invocation" where
  "observe s =
     \<lparr>Diagnostics = Diagnostics s, Progress = Progress s, buildIndexes = buildIndexes s,
      control = control s, calls = calls s, remote = snd (remote s)\<rparr>"

text \<open>
  The request that \<^verbatim>\<open>Do\<close> hands to the transport, if it gets that far; the one of
  \<^verbatim>\<open>GetIndexBuildStatus\<close> and the one of \<^verbatim>\<open>BuildDeferredIndexes\<close>.
\<close>

definition sent ::
  "library \<Rightarrow> 'w Client \<Rightarrow> string \<Rightarrow> string \<Rightarrow> (string \<times> string) list \<Rightarrow> IndexDefinition option
     \<Rightarrow> Request list" where
  "sent lib c method p query body =
     (case Do_request lib c method p query body of Inl e \<Rightarrow> [] | Inr rq \<Rightarrow> [rq])"

definition status_sent :: "library \<Rightarrow> 'w Client \<Rightarrow> IndexBuildStatusRequest \<Rightarrow> Request list" where
  "status_sent lib c r = sent lib c ''GET'' (status_path lib r) (status_params r) None"

definition build_sent :: "library \<Rightarrow> 'w Client \<Rightarrow> IndexBuildRequest \<Rightarrow> Request list" where
  "build_sent lib c r = sent lib c ''POST'' (build_path r) [] (Some (build_definition r))"

text \<open>
  An authenticator that leaves the method, the URL and the body of the request alone, as
  the authenticators of the package \<^verbatim>\<open>client\<close> do, which only set headers.
\<close>

definition keeps_request :: "Authenticator \<Rightarrow> bool" where
  "keeps_request a =
     (\<forall>req. Method (fst (a req)) = Method req \<and> Target (fst (a req)) = Target req
            \<and> Body (fst (a req)) = Body req)"

definition auth_keeps :: "'w Client \<Rightarrow> bool" where
  "auth_keeps c = (case Auth c of None \<Rightarrow> True | Some a \<Rightarrow> keeps_request a)"

text \<open>
  A request as the transport receives it uses the scope \<open>sc\<close> and the collection \<open>co\<close>: a
  \<^verbatim>\<open>GET\<close> has them as its query parameters \<^verbatim>\<open>scope\<close> and \<^verbatim>\<open>collection\<close>, and any other request
  has a body whose statement starts with \<^verbatim>\<open>BUILD INDEX ON\<close>, the bucket \<open>b\<close>, \<open>sc\<close> and \<open>co\<close>.
  \<open>wire_view\<close> shows the method, the two parameters and the statement of a request.
\<close>

definition on_wire :: "string \<Rightarrow> string \<Rightarrow> string \<Rightarrow> Request \<Rightarrow> bool" where
  "on_wire sc co b rq =
     (if Method rq = ''GET''
      then Values (Target rq) ''scope'' = Some [sc] \<and> Values (Target rq) ''collection'' = Some [co]
      else (case Body rq of
              None \<Rightarrow> False
            | Some d \<Rightarrow>
                HasPrefix (Definition d)
                  (''BUILD INDEX ON `'' @ b @ ''`.`'' @ sc @ ''`.`'' @ co @ ''`('')))"

definition wire_view :: "Request \<Rightarrow> string \<times> string list option \<times> string list option \<times> string option" where
  "wire_view rq =
     (Method rq, Values (Target rq) ''scope'', Values (Target rq) ''collection'',
      map_option Definition (Body rq))"

subsection \<open>A scripted remote service\<close>

text \<open>
  For the evaluation of the program on concrete inputs: library functions that
  keep their argument, decoders for the bodies used below, and a client whose
  transport answers each request with the next entry of a script and refuses the
  connection when the script is used up.
\<close>

definition test_lib :: library where
  \<open>test_lib =
     \<lparr>url_Parse = (\<lambda>s. Inr \<lparr>Location = s, Values = Map.empty\<rparr>),
      url_ResolveReference = (\<lambda>base p. \<lparr>Location = Location base @ p, Values = Map.empty\<rparr>),
      url_PathEscape = (\<lambda>s. s),
      path_Clean = (\<lambda>s. s),
      strings_TrimSpace = (\<lambda>s. s),
      NewRequest_error = (\<lambda>method u. None),
      json_Unmarshal_apiError =
        (\<lambda>b. if b = ''{"code":"unauthorized","message":"no token"}''
             then Some \<lparr>Code = ''unauthorized'', Message = ''no token''\<rparr>
             else None),
      json_Decode_status =
        (\<lambda>b. if b = '''' then DecodeEOF
             else if HasPrefix b ''{"status":"''
             then Decoded (Some \<lparr>Status = take (length b - 13) (drop 11 b)\<rparr>)
             else DecodeError (ErrorString ''invalid character'') None),
      json_Decode_build = (\<lambda>b. if b = '''' then DecodeEOF else Decoded (Some \<lparr>Error = None\<rparr>))\<rparr>\<close>

definition test_client :: "(go_error + Response) list Client" where
  "test_client =
     \<lparr>BaseURL = Some \<lparr>Location = ''https://cloudapi.cloud.couchbase.com'', Values = Map.empty\<rparr>,
      HTTP = (\<lambda>req w. case w of [] \<Rightarrow> (Inl (ErrorString ''connection refused''), [])
                                | r # rest \<Rightarrow> (r, rest)),
      Auth = Some (BearerTokenAuth_Apply ''abc123''),
      UserAgent = ''capellaextras-terraform-provider/unknown''\<rparr>"

definition test_request :: "string list \<Rightarrow> InvokeRequest" where
  "test_request names =
     \<lparr>Config_diags = [],
      Config_data = \<lparr>m_OrganizationId = StringValue ''org'', m_ProjectId = StringValue ''proj'',
                     m_ClusterId = StringValue ''cl'', m_BucketName = StringValue ''b'',
                     m_IndexNames = TfList [] names, m_ScopeName = StringNull,
                     m_CollectionName = StringNull\<rparr>\<rparr>"

definition ok :: "string \<Rightarrow> go_error + Response" where
  "ok body = Inr \<lparr>StatusCode = 200, RespBody = body\<rparr>"

definition status_body :: "string \<Rightarrow> string" where
  \<open>status_body st = ''{"status":"'' @ st @ ''"}''\<close>

text \<open>The request that \<open>Do\<close> builds for a \<^verbatim>\<open>GET\<close> of \<^verbatim>\<open>health\<close> on the scripted client.\<close>

definition health_request :: "string \<Rightarrow> Request" where
  "health_request auth =
     \<lparr>Method = ''GET'',
      Target = \<lparr>Location = ''https://cloudapi.cloud.couchbase.com/health'', Values = Map.empty\<rparr>,
      Header = (if auth = '''' then
                  [''Accept'' \<mapsto> [''application/json''],
                   ''User-Agent'' \<mapsto> [''capellaextras-terraform-provider/unknown'']]
                else
                  [''Accept'' \<mapsto> [''application/json''],
                   ''User-Agent'' \<mapsto> [''capellaextras-terraform-provider/unknown''],
                   ''Authorization'' \<mapsto> [auth]]),
      Body = None\<rparr>"

text \<open>
  The same request with a scope and a collection given; the response of the client's
  test for a missing token; the request that \<open>Do\<close> builds for a \<^verbatim>\<open>GET\<close> of \<^verbatim>\<open>whatever\<close>.
\<close>

definition explicit_request :: "string \<Rightarrow> string \<Rightarrow> string list \<Rightarrow> InvokeRequest" where
  "explicit_request sc co names =
     \<lparr>Config_diags = [],
      Config_data = \<lparr>m_OrganizationId = StringValue ''org'', m_ProjectId = StringValue ''proj'',
                     m_ClusterId = StringValue ''cl'', m_BucketName = StringValue ''b'',
                     m_IndexNames = TfList [] names, m_ScopeName = StringValue sc,
                     m_CollectionName = StringValue co\<rparr>\<rparr>"

definition unauthorized :: "go_error + Response" where
  \<open>unauthorized = Inr \<lparr>StatusCode = 401, RespBody = ''{"code":"unauthorized","message":"no token"}''\<rparr>\<close>

definition whatever_request :: Request where
  "whatever_request =
     \<lparr>Method = ''GET'',
      Target = \<lparr>Location = ''https://cloudapi.cloud.couchbase.com/whatever'', Values = Map.empty\<rparr>,
      Header = [''Accept'' \<mapsto> [''application/json''],
                ''User-Agent'' \<mapsto> [''capellaextras-terraform-provider/unknown''],
                ''Authorization'' \<mapsto> [''Bearer abc123'']],
      Body = None\<rparr>"

section \<open>Auxiliary facts\<close>

lemma Append_set: "set (Append ds new) = set ds \<union> set new"
  unfolding Append_def
  by (induction new arbitrary: ds) auto

lemma HasError_Append: "HasError (Append ds new) = (HasError ds \<or> HasError new)"
  by (auto simp: HasError_def list_ex_iff Append_set)

lemma HasError_Nil: "\<not> HasError []"
  by (simp add: HasError_def)

lemma fold_join_prefix:
  "fold (\<lambda>s b. b @ sep @ s) ys (p @ x) = p @ fold (\<lambda>s b. b @ sep @ s) ys x"
  by (induction ys arbitrary: x) simp_all

lemma fold_join: "fold (\<lambda>s b. b @ sep @ s) (y # ys) x = x @ sep @ fold (\<lambda>s b. b @ sep @ s) ys y"
  using fold_join_prefix [of sep ys "x @ sep" y] by simp

lemma Join_joined_by: "Join ns sep = joined_by sep ns"
proof (induction sep ns rule: joined_by.induct)
  case (1 sep)
  show ?case by (simp add: Join_def)
next
  case (2 sep x)
  show ?case by (simp add: Join_def)
next
  case (3 sep x y ys)
  have "Join (x # y # ys) sep = fold (\<lambda>s b. b @ sep @ s) (y # ys) x"
    by (simp add: Join_def)
  also have "\<dots> = x @ sep @ fold (\<lambda>s b. b @ sep @ s) ys y"
    by (rule fold_join)
  also have "fold (\<lambda>s b. b @ sep @ s) ys y = Join (y # ys) sep"
    by (cases ys) (simp_all add: Join_def)
  finally show ?case using 3 by simp
qed

section \<open>The steps of an invocation\<close>



lemma collect_fields:
  "calls (collect n r s) = calls s" "control (collect n r s) = control s"
  "Diagnostics (collect n r s) = Diagnostics s" "Progress (collect n r s) = Progress s"
  "remote (collect n r s) = remote s"
  "buildIndexes (collect n r s) = (if Status r = ''Created'' then buildIndexes s @ [n] else buildIndexes s)"
  by (simp_all add: collect_def)

text \<open>What one round of the loop does, by the outcome of its calls.\<close>

lemma Invoke_index_status_failed:
  assumes "GetIndexBuildStatus lib c (status_request data sc co n) (remote s) = ((res, Some e), w1)"
  shows "Invoke_index lib polls c data sc co n s =
           s\<lparr>calls := calls s @ [StatusCall (status_request data sc co n) (res, Some e)],
             remote := w1,
             Diagnostics := AddError (Diagnostics s) ''Get Index Build Status Failed''
                (''Cannot get index build status for index '' @ n
                   @ ''.  Error: '' @ error_message e @ ''\<newline>''),
             control := Returned\<rparr>"
  using assms by (simp add: Invoke_index_def)

lemma Invoke_index_status_nil:
  assumes "GetIndexBuildStatus lib c (status_request data sc co n) (remote s) = ((None, None), w1)"
  shows "Invoke_index lib polls c data sc co n s =
           s\<lparr>calls := calls s @ [StatusCall (status_request data sc co n) (None, None)],
             remote := w1, control := Panicked\<rparr>"
  using assms by (simp add: Invoke_index_def)

lemma Invoke_index_plain:
  assumes "GetIndexBuildStatus lib c (status_request data sc co n) (remote s) = ((Some r, None), w1)"
    and "Status r \<noteq> ''Scheduled for Creation''"
  shows "Invoke_index lib polls c data sc co n s =
           collect n r
             (s\<lparr>calls := calls s @ [StatusCall (status_request data sc co n) (Some r, None)],
                remote := w1,
                Progress := Progress s @ [''Index: '' @ n @ '', Status: '' @ Status r]\<rparr>)"
  using assms by (simp add: Invoke_index_def)

lemma Invoke_index_scheduled:
  assumes "GetIndexBuildStatus lib c (status_request data sc co n) (remote s) = ((Some r, None), w1)"
    and "Status r = ''Scheduled for Creation''"
    and "WaitForScheduledIndexCreation lib polls c (status_request data sc co n) w1 = ((res', err'), w2)"
  shows "Invoke_index lib polls c data sc co n s =
           (let s3 = s\<lparr>calls := calls s @ [StatusCall (status_request data sc co n) (Some r, None),
                                              WaitCall (status_request data sc co n) (res', err')],
                         remote := w2,
                         Progress := Progress s @ [''Index: '' @ n @ '', Status: '' @ Status r]\<rparr>
            in case err' of
                 Some e' \<Rightarrow>
                   s3\<lparr>Diagnostics :=
                        AddError (Diagnostics s) ''Wait for Scheduled Index Creation Failed''
                          (''Cannot wait for scheduled index creation for index '' @ n
                             @ ''.  Error: '' @ error_message e' @ ''\<newline>''),
                      control := Returned\<rparr>
               | None \<Rightarrow>
                   (case res' of
                      None \<Rightarrow> s3\<lparr>control := Panicked\<rparr>
                    | Some r' \<Rightarrow> collect n r' s3))"
  using assms by (simp add: Invoke_index_def Let_def collect_def split: option.splits)


lemma Invoke_index_cases:
  fixes s :: "'w invocation"
  obtains
    (status_failed) res e w1 where
      "GetIndexBuildStatus lib c (status_request data sc co n) (remote s) = ((res, Some e), w1)"
  | (status_nil) w1 where
      "GetIndexBuildStatus lib c (status_request data sc co n) (remote s) = ((None, None), w1)"
  | (plain) r w1 where
      "GetIndexBuildStatus lib c (status_request data sc co n) (remote s) = ((Some r, None), w1)"
      "Status r \<noteq> ''Scheduled for Creation''"
  | (scheduled) r w1 res' err' w2 where
      "GetIndexBuildStatus lib c (status_request data sc co n) (remote s) = ((Some r, None), w1)"
      "Status r = ''Scheduled for Creation''"
      "WaitForScheduledIndexCreation lib polls c (status_request data sc co n) w1 = ((res', err'), w2)"
proof -
  obtain res err w1 where g:
    "GetIndexBuildStatus lib c (status_request data sc co n) (remote s) = ((res, err), w1)"
    by (metis surj_pair)
  show thesis
  proof (cases err)
    case (Some e)
    with g show thesis by (auto intro: status_failed)
  next
    case None
    show thesis
    proof (cases res)
      case None
      with g \<open>err = None\<close> show thesis by (auto intro: status_nil)
    next
      case (Some r)
      show thesis
      proof (cases "Status r = ''Scheduled for Creation''")
        case False
        with g \<open>err = None\<close> Some show thesis by (auto intro: plain)
      next
        case True
        obtain res' err' w2 where
          "WaitForScheduledIndexCreation lib polls c (status_request data sc co n) w1 = ((res', err'), w2)"
          by (metis surj_pair)
        with g \<open>err = None\<close> Some True show thesis by (auto intro: scheduled)
      qed
    qed
  qed
qed

text \<open>The loop adds no build call.\<close>

lemma Invoke_index_built:
  "List.map_filter built (calls (Invoke_index lib polls c data sc co n s)) = List.map_filter built (calls s)"
proof (cases rule: Invoke_index_cases [where lib = lib and c = c and data = data and sc = sc and co = co and n = n and s = s and polls = polls])
  case (status_failed res e w1)
  then show ?thesis by (simp add: Invoke_index_status_failed List.map_filter_def)
next
  case (status_nil w1)
  then show ?thesis by (simp add: Invoke_index_status_nil List.map_filter_def)
next
  case (plain r w1)
  then show ?thesis by (simp add: Invoke_index_plain collect_fields List.map_filter_def)
next
  case (scheduled r w1 res' err' w2)
  then show ?thesis
    by (simp add: Invoke_index_scheduled [OF scheduled] collect_fields List.map_filter_def Let_def
        split: option.splits)
qed

lemma Invoke_loop_built:
  "List.map_filter built (calls (Invoke_loop lib polls c data sc co ns s)) = List.map_filter built (calls s)"
  by (induction ns arbitrary: s) (simp_all add: Let_def Invoke_index_built)

lemma Invoke_index_calls_mono:
  "set (calls s) \<subseteq> set (calls (Invoke_index lib polls c data sc co n s))"
proof (cases rule: Invoke_index_cases [where lib = lib and c = c and data = data and sc = sc and co = co and n = n and s = s and polls = polls])
  case (status_failed res e w1)
  then show ?thesis by (auto simp add: Invoke_index_status_failed) 
next
  case (status_nil w1)
  then show ?thesis by (auto simp add: Invoke_index_status_nil)
next
  case (plain r w1)
  then show ?thesis by (auto simp add: Invoke_index_plain collect_fields)
next
  case (scheduled r w1 res' err' w2)
  then show ?thesis
    by (auto simp add: Invoke_index_scheduled [OF scheduled] collect_fields Let_def
        split: option.splits)
qed

lemma Invoke_loop_calls_mono:
  "set (calls s) \<subseteq> set (calls (Invoke_loop lib polls c data sc co ns s))"
proof (induction ns arbitrary: s)
  case Nil
  show ?case by simp
next
  case (Cons n ns)
  show ?case
    using Invoke_index_calls_mono [of s lib polls c data sc co n]
      Cons.IH [of "Invoke_index lib polls c data sc co n s"]
    by (auto simp: Let_def)
qed


lemma status_request_namespace: "uses_namespace sc co (StatusCall (status_request data sc co n) out)"
  "uses_namespace sc co (WaitCall (status_request data sc co n) out)"
  by (simp_all add: status_request_def status_params_def)

lemma build_request_namespace: "uses_namespace sc co (BuildCall (build_request data sc co ns) out)"
  by (simp add: build_request_def build_definition_def)

lemma Invoke_index_namespace:
  assumes "\<forall>e\<in>set (calls s). uses_namespace sc co e"
  shows "\<forall>e\<in>set (calls (Invoke_index lib polls c data sc co n s)). uses_namespace sc co e"
proof (cases rule: Invoke_index_cases [where lib = lib and c = c and data = data and sc = sc and co = co and n = n and s = s and polls = polls])
  case (status_failed res e w1)
  then show ?thesis using assms by (auto simp add: Invoke_index_status_failed status_request_namespace simp del: uses_namespace.simps) 
next
  case (status_nil w1)
  then show ?thesis using assms by (auto simp add: Invoke_index_status_nil status_request_namespace simp del: uses_namespace.simps)
next
  case (plain r w1)
  then show ?thesis using assms by (auto simp add: Invoke_index_plain collect_fields status_request_namespace simp del: uses_namespace.simps)
next
  case (scheduled r w1 res' err' w2)
  then show ?thesis using assms
    by (auto simp add: Invoke_index_scheduled [OF scheduled] collect_fields Let_def status_request_namespace
        simp del: uses_namespace.simps split: option.splits)
qed

lemma Invoke_loop_namespace:
  assumes "\<forall>e\<in>set (calls s). uses_namespace sc co e"
  shows "\<forall>e\<in>set (calls (Invoke_loop lib polls c data sc co ns s)). uses_namespace sc co e"
  using assms
proof (induction ns arbitrary: s)
  case Nil
  then show ?case by simp
next
  case (Cons n ns)
  have step: "\<forall>e\<in>set (calls (Invoke_index lib polls c data sc co n s)). uses_namespace sc co e"
    using Cons.prems by (rule Invoke_index_namespace)
  show ?case
    using step Cons.IH [OF step] by (simp add: Let_def)
qed

text \<open>The end of the function, by the batch.\<close>

lemma Invoke_build_empty:
  "buildIndexes s = [] \<Longrightarrow>
   Invoke_build lib c data sc co s =
     s\<lparr>Progress := Progress s @ [''No indexes need built''], control := Returned\<rparr>"
  by (simp add: Invoke_build_def)

lemma Invoke_build_calls:
  "buildIndexes s \<noteq> [] \<Longrightarrow>
   \<exists>out. calls (Invoke_build lib c data sc co s) =
           calls s @ [BuildCall (build_request data sc co (buildIndexes s)) out]"
  by (simp add: Invoke_build_def Let_def split: prod.splits option.splits)

lemma Invoke_build_calls_mono:
  "set (calls s) \<subseteq> set (calls (Invoke_build lib c data sc co s))"
proof (cases "buildIndexes s = []")
  case True
  then show ?thesis by (simp add: Invoke_build_empty)
next
  case False
  from Invoke_build_calls [OF False, of lib c data sc co] show ?thesis by auto
qed

lemma Invoke_build_namespace:
  assumes "\<forall>e\<in>set (calls s). uses_namespace sc co e"
  shows "\<forall>e\<in>set (calls (Invoke_build lib c data sc co s)). uses_namespace sc co e"
proof (cases "buildIndexes s = []")
  case True
  then show ?thesis using assms by (simp add: Invoke_build_empty)
next
  case False
  from Invoke_build_calls [OF False, of lib c data sc co] show ?thesis
    using assms by (auto simp: build_request_namespace simp del: uses_namespace.simps)
qed

text \<open>The function, once the configuration has been read without an error.\<close>

lemma Invoke_read:
  assumes "\<not> HasError (Config_diags req)"
    and "m_IndexNames (Config_data req) = TfList ds names"
    and "\<not> HasError ds"
  shows "Invoke lib polls c req w =
           (let s2 = Invoke_loop lib polls c (Config_data req)
                       (default_name (m_ScopeName (Config_data req)))
                       (default_name (m_CollectionName (Config_data req))) names
                       (start (Append (Append [] (Config_diags req)) ds) w)
            in if control s2 = Running
               then Invoke_build lib c (Config_data req)
                      (default_name (m_ScopeName (Config_data req)))
                      (default_name (m_CollectionName (Config_data req))) s2
               else s2)"
  using assms by (simp add: Invoke_def Let_def HasError_Append HasError_Nil start_def)

lemma Invoke_not_read:
  assumes "m_IndexNames (Config_data req) = TfList ds names"
    and "HasError (Config_diags req) \<or> HasError ds"
  shows "calls (Invoke lib polls c req w) = []"
    and "control (Invoke lib polls c req w) = Returned"
    and "HasError (Diagnostics (Invoke lib polls c req w))"
  using assms by (auto simp add: Invoke_def Let_def HasError_Append)

lemma Invoke_namespace:
  "\<forall>e\<in>set (calls (Invoke lib polls c req w)).
     uses_namespace (default_name (m_ScopeName (Config_data req)))
       (default_name (m_CollectionName (Config_data req))) e"
proof -
  let ?sc = "default_name (m_ScopeName (Config_data req))"
  let ?co = "default_name (m_CollectionName (Config_data req))"
  obtain ds names where el: "m_IndexNames (Config_data req) = TfList ds names"
    by (cases "m_IndexNames (Config_data req)") auto
  show ?thesis
  proof (cases "HasError (Config_diags req) \<or> HasError ds")
    case True
    with el show ?thesis by (simp add: Invoke_not_read(1) del: uses_namespace.simps)
  next
    case False
    let ?s2 = "Invoke_loop lib polls c (Config_data req) ?sc ?co names
                 (start (Append (Append [] (Config_diags req)) ds) w)"
    have loop: "\<forall>e\<in>set (calls ?s2). uses_namespace ?sc ?co e"
      by (rule Invoke_loop_namespace) (simp add: start_def)
    have build: "\<forall>e\<in>set (calls (Invoke_build lib c (Config_data req) ?sc ?co ?s2)).
                   uses_namespace ?sc ?co e"
      using loop by (rule Invoke_build_namespace)
    have "Invoke lib polls c req w =
            (if control ?s2 = Running then Invoke_build lib c (Config_data req) ?sc ?co ?s2 else ?s2)"
      using Invoke_read [OF _ el, of lib polls c w] False by (simp add: Let_def)
    then show ?thesis using loop build by (simp del: uses_namespace.simps)
  qed
qed

section \<open>The build statement\<close>

text \<open>
  C6: for every bucket \<open>b\<close>, scope \<open>s\<close>, collection \<open>c\<close> and list of index names \<open>ns\<close>, the
  statement that \<^verbatim>\<open>BuildDeferredIndexes\<close> generates is \<^verbatim>\<open>BUILD INDEX ON `b`.`s`.`c`(\<close>,
  then the names joined by a comma and a space, then the closing parenthesis; for the
  names \<^verbatim>\<open>idx1\<close> and \<^verbatim>\<open>idx2\<close> on the bucket \<^verbatim>\<open>b\<close>, the scope \<^verbatim>\<open>s\<close> and the collection \<^verbatim>\<open>c\<close> it is
  exactly \<^verbatim>\<open>BUILD INDEX ON `b`.`s`.`c`(idx1, idx2)\<close>.
\<close>

theorem build_statement_text:
  "Definition (build_definition
      \<lparr>b_OrganizationId = org, b_ProjectId = proj, b_ClusterId = cl, b_Bucket = b,
       IndexNames = ns, b_Scope = s, b_Collection = c\<rparr>)
     = ''BUILD INDEX ON `'' @ b @ ''`.`'' @ s @ ''`.`'' @ c @ ''`('' @ joined_by '', '' ns @ '')''
   \<and> Definition (build_definition
      \<lparr>b_OrganizationId = org, b_ProjectId = proj, b_ClusterId = cl, b_Bucket = ''b'',
       IndexNames = [''idx1'', ''idx2''], b_Scope = ''s'', b_Collection = ''c''\<rparr>)
     = ''BUILD INDEX ON `b`.`s`.`c`(idx1, idx2)''"
  by (simp add: build_definition_def Join_joined_by)

section \<open>The bearer token\<close>

lemma Do_request_bearer:
  assumes "Auth c = Some (BearerTokenAuth_Apply token)"
    and "Do_request lib c method p query body = Inr r"
  shows "Header r ''Authorization'' = (if token = '''' then None else Some [''Bearer '' @ token])"
  using assms
  by (auto simp add: Do_request_def Let_def BearerTokenAuth_Apply_def Header_Set_def
      split: sum.splits option.splits if_splits)

text \<open>
  C9: on every request, the bearer authenticator with the token \<^verbatim>\<open>abc123\<close> sets the header
  \<^verbatim>\<open>Authorization\<close> to exactly \<^verbatim>\<open>Bearer abc123\<close>, and the bearer authenticator with the empty
  token leaves the request as it is and returns no error; so every request that \<^verbatim>\<open>Do\<close>
  hands to the transport carries \<^verbatim>\<open>Authorization: Bearer abc123\<close> with the first
  authenticator and no \<^verbatim>\<open>Authorization\<close> header with the second.
\<close>

theorem bearer_token_header:
  "Header_Get (Header (fst (BearerTokenAuth_Apply ''abc123'' req))) ''Authorization'' = ''Bearer abc123''
   \<and> snd (BearerTokenAuth_Apply ''abc123'' req) = None
   \<and> BearerTokenAuth_Apply '''' req = (req, None)
   \<and> (Auth c = Some (BearerTokenAuth_Apply ''abc123'')
        \<and> Do_request lib c method p query body = Inr r
        \<longrightarrow> Header r ''Authorization'' = Some [''Bearer abc123''])
   \<and> (Auth c' = Some (BearerTokenAuth_Apply '''')
        \<and> Do_request lib' c' method' p' query' body' = Inr r'
        \<longrightarrow> Header r' ''Authorization'' = None)"
proof -
  have "Header_Get (Header (fst (BearerTokenAuth_Apply ''abc123'' req))) ''Authorization''
          = ''Bearer abc123''"
    by (simp add: BearerTokenAuth_Apply_def Header_Set_def Header_Get_def)
  moreover have "snd (BearerTokenAuth_Apply ''abc123'' req) = None"
    by (simp add: BearerTokenAuth_Apply_def)
  moreover have "BearerTokenAuth_Apply '''' req = (req, None)"
    by (simp add: BearerTokenAuth_Apply_def)
  moreover have "Header r ''Authorization'' = Some [''Bearer abc123'']"
    if "Auth c = Some (BearerTokenAuth_Apply ''abc123'')"
      and "Do_request lib c method p query body = Inr r"
    using Do_request_bearer [OF that] by simp
  moreover have "Header r' ''Authorization'' = None"
    if "Auth c' = Some (BearerTokenAuth_Apply '''')"
      and "Do_request lib' c' method' p' query' body' = Inr r'"
    using Do_request_bearer [OF that] by simp
  ultimately show ?thesis by blast
qed

lemma test_Do_request:
  "Do_request test_lib (test_client\<lparr>Auth := Some (BearerTokenAuth_Apply token)\<rparr>) ''GET'' ''health'' [] None
     = Inr (health_request (if token = '''' then '''' else ''Bearer '' @ token))"
  by (simp add: Do_request_def Do_url_def test_lib_def test_client_def HasPrefix_def Let_def
      BearerTokenAuth_Apply_def Header_Set_def health_request_def)

theorem bearer_token_header_witness:
  "Auth test_client = Some (BearerTokenAuth_Apply ''abc123'')
   \<and> Do_request test_lib test_client ''GET'' ''health'' [] None = Inr (health_request ''Bearer abc123'')
   \<and> Header (health_request ''Bearer abc123'') ''Authorization'' = Some [''Bearer abc123'']
   \<and> Auth (test_client\<lparr>Auth := Some (BearerTokenAuth_Apply '''')\<rparr>) = Some (BearerTokenAuth_Apply '''')
   \<and> Do_request test_lib (test_client\<lparr>Auth := Some (BearerTokenAuth_Apply '''')\<rparr>) ''GET'' ''health'' [] None
        = Inr (health_request '''')
   \<and> Header (health_request '''') ''Authorization'' = None
   \<and> Header_Get (Header (fst (BearerTokenAuth_Apply ''abc123'' (health_request '''')))) ''Authorization''
        = ''Bearer abc123''"
proof -
  have a: "Auth test_client = Some (BearerTokenAuth_Apply ''abc123'')"
    by (simp add: test_client_def)
  have b: "Do_request test_lib test_client ''GET'' ''health'' [] None = Inr (health_request ''Bearer abc123'')"
    using test_Do_request [of "''abc123''"] by (simp add: test_client_def)
  have c: "Auth (test_client\<lparr>Auth := Some (BearerTokenAuth_Apply '''')\<rparr>) = Some (BearerTokenAuth_Apply '''')"
    by simp
  have d: "Do_request test_lib (test_client\<lparr>Auth := Some (BearerTokenAuth_Apply '''')\<rparr>) ''GET'' ''health'' [] None
        = Inr (health_request '''')"
    using test_Do_request [of "''''"] by simp
  from bearer_token_header [of "health_request ''''" test_client test_lib "''GET''" "''health''" "[]" None
      "health_request ''Bearer abc123''" "test_client\<lparr>Auth := Some (BearerTokenAuth_Apply '''')\<rparr>"
      test_lib "''GET''" "''health''" "[]" None "health_request ''''"] a b c d
  show ?thesis by simp
qed

section \<open>The batch\<close>

lemma Invoke_index_reports_Created:
  assumes "\<forall>e\<in>set (calls (Invoke_index lib polls c data sc co n s)). reports_Created e"
  shows "control (Invoke_index lib polls c data sc co n s) = control s
         \<and> buildIndexes (Invoke_index lib polls c data sc co n s) = buildIndexes s @ [n]"
proof (cases rule: Invoke_index_cases [where lib = lib and c = c and data = data and sc = sc and co = co and n = n and s = s and polls = polls])
  case (status_failed res e w1)
  then show ?thesis using assms
    by (simp add: Invoke_index_status_failed returned_status_def split: option.splits)
next
  case (status_nil w1)
  then show ?thesis using assms
    by (simp add: Invoke_index_status_nil returned_status_def)
next
  case (plain r w1)
  then show ?thesis using assms
    by (simp add: Invoke_index_plain collect_fields returned_status_def)
next
  case (scheduled r w1 res' err' w2)
  then show ?thesis using assms
    by (auto simp add: Invoke_index_scheduled [OF scheduled] collect_fields Let_def returned_status_def
        split: option.splits)
qed

lemma Invoke_loop_reports_Created:
  assumes "\<forall>e\<in>set (calls (Invoke_loop lib polls c data sc co ns s)). reports_Created e"
    and "control s = Running"
  shows "control (Invoke_loop lib polls c data sc co ns s) = Running
         \<and> buildIndexes (Invoke_loop lib polls c data sc co ns s) = buildIndexes s @ ns"
  using assms
proof (induction ns arbitrary: s)
  case Nil
  then show ?case by simp
next
  case (Cons n ns)
  let ?s' = "Invoke_index lib polls c data sc co n s"
  have sub: "set (calls ?s') \<subseteq> set (calls (Invoke_loop lib polls c data sc co (n # ns) s))"
    using Invoke_loop_calls_mono [of ?s' lib polls c data sc co ns] by (simp add: Let_def)
  then have "\<forall>e\<in>set (calls ?s'). reports_Created e"
    using Cons.prems(1) by blast
  then have step: "control ?s' = Running" "buildIndexes ?s' = buildIndexes s @ [n]"
    using Invoke_index_reports_Created [of lib polls c data sc co n s] Cons.prems(2) by simp_all
  have "\<forall>e\<in>set (calls (Invoke_loop lib polls c data sc co ns ?s')). reports_Created e"
    using Cons.prems(1) step(1) by (simp add: Let_def)
  from Cons.IH [OF this step(1)] step show ?case
    by (simp add: Let_def)
qed

lemma Invoke_index_reports_other:
  assumes "\<forall>e\<in>set (calls (Invoke_index lib polls c data sc co n s)). reports_other e"
  shows "control (Invoke_index lib polls c data sc co n s) = control s
         \<and> buildIndexes (Invoke_index lib polls c data sc co n s) = buildIndexes s
         \<and> Diagnostics (Invoke_index lib polls c data sc co n s) = Diagnostics s"
proof (cases rule: Invoke_index_cases [where lib = lib and c = c and data = data and sc = sc and co = co and n = n and s = s and polls = polls])
  case (status_failed res e w1)
  then show ?thesis using assms
    by (simp add: Invoke_index_status_failed returned_status_def split: option.splits)
next
  case (status_nil w1)
  then show ?thesis using assms
    by (simp add: Invoke_index_status_nil returned_status_def)
next
  case (plain r w1)
  then show ?thesis using assms
    by (simp add: Invoke_index_plain collect_fields returned_status_def)
next
  case (scheduled r w1 res' err' w2)
  then show ?thesis using assms
    by (auto simp add: Invoke_index_scheduled [OF scheduled] collect_fields Let_def returned_status_def
        split: option.splits)
qed

lemma Invoke_loop_reports_other:
  assumes "\<forall>e\<in>set (calls (Invoke_loop lib polls c data sc co ns s)). reports_other e"
    and "control s = Running"
  shows "control (Invoke_loop lib polls c data sc co ns s) = Running
         \<and> buildIndexes (Invoke_loop lib polls c data sc co ns s) = buildIndexes s
         \<and> Diagnostics (Invoke_loop lib polls c data sc co ns s) = Diagnostics s"
  using assms
proof (induction ns arbitrary: s)
  case Nil
  then show ?case by simp
next
  case (Cons n ns)
  let ?s' = "Invoke_index lib polls c data sc co n s"
  have sub: "set (calls ?s') \<subseteq> set (calls (Invoke_loop lib polls c data sc co (n # ns) s))"
    using Invoke_loop_calls_mono [of ?s' lib polls c data sc co ns] by (simp add: Let_def)
  then have "\<forall>e\<in>set (calls ?s'). reports_other e"
    using Cons.prems(1) by blast
  then have step: "control ?s' = Running" "buildIndexes ?s' = buildIndexes s"
    "Diagnostics ?s' = Diagnostics s"
    using Invoke_index_reports_other [of lib polls c data sc co n s] Cons.prems(2) by simp_all
  have "\<forall>e\<in>set (calls (Invoke_loop lib polls c data sc co ns ?s')). reports_other e"
    using Cons.prems(1) step(1) by (simp add: Let_def)
  from Cons.IH [OF this step(1)] step show ?case
    by (simp add: Let_def)
qed

lemma map_filter_append: "List.map_filter f (xs @ ys) = List.map_filter f xs @ List.map_filter f ys"
  by (simp add: List.map_filter_def)

lemma map_filter_single: "List.map_filter f [x] = (case f x of None \<Rightarrow> [] | Some y \<Rightarrow> [y])"
  by (simp add: List.map_filter_def split: option.splits)

lemma start_fields:
  "calls (start ds w) = []" "control (start ds w) = Running" "buildIndexes (start ds w) = []"
  "Diagnostics (start ds w) = ds" "Progress (start ds w) = []" "remote (start ds w) = w"
  by (simp_all add: start_def)

subsection \<open>The calls and the remote world\<close>

lemma replay_append:
  "replay lib polls c (xs @ ys) w =
     (case replay lib polls c xs w of None \<Rightarrow> None | Some w' \<Rightarrow> replay lib polls c ys w')"
  by (induction xs arbitrary: w) (simp_all split: option.splits)

lemma replay_snoc:
  assumes "replay lib polls c xs w = Some w1" and "perform lib polls c e w1 = Some w2"
  shows "replay lib polls c (xs @ [e]) w = Some w2"
  using assms by (simp add: replay_append)

lemma Invoke_index_replay:
  assumes "replay lib polls c (calls s) w0 = Some (remote s)"
  shows "replay lib polls c (calls (Invoke_index lib polls c data sc co n s)) w0
           = Some (remote (Invoke_index lib polls c data sc co n s))"
proof (cases rule: Invoke_index_cases [where lib = lib and c = c and data = data and sc = sc and co = co and n = n and s = s and polls = polls])
  case (status_failed res e w1)
  then show ?thesis using assms
    by (simp add: Invoke_index_status_failed replay_append)
next
  case (status_nil w1)
  then show ?thesis using assms
    by (simp add: Invoke_index_status_nil replay_append)
next
  case (plain r w1)
  then show ?thesis using assms
    by (simp add: Invoke_index_plain collect_fields replay_append)
next
  case (scheduled r w1 res' err' w2)
  have c: "calls (Invoke_index lib polls c data sc co n s)
          = (calls s @ [StatusCall (status_request data sc co n) (Some r, None)])
              @ [WaitCall (status_request data sc co n) (res', err')]"
    and r: "remote (Invoke_index lib polls c data sc co n s) = w2"
    by (simp_all add: Invoke_index_scheduled [OF scheduled] collect_fields Let_def split: option.splits)
  have "replay lib polls c ((calls s @ [StatusCall (status_request data sc co n) (Some r, None)])
          @ [WaitCall (status_request data sc co n) (res', err')]) w0 = Some w2"
    using assms scheduled(1,3) by (simp add: replay_append)
  with c r show ?thesis by simp
qed

lemma Invoke_loop_replay:
  assumes "replay lib polls c (calls s) w0 = Some (remote s)"
  shows "replay lib polls c (calls (Invoke_loop lib polls c data sc co ns s)) w0
           = Some (remote (Invoke_loop lib polls c data sc co ns s))"
  using assms
proof (induction ns arbitrary: s)
  case Nil
  then show ?case by simp
next
  case (Cons n ns)
  have step: "replay lib polls c (calls (Invoke_index lib polls c data sc co n s)) w0
           = Some (remote (Invoke_index lib polls c data sc co n s))"
    using Cons.prems by (rule Invoke_index_replay)
  show ?case
    using step Cons.IH [OF step] by (simp add: Let_def)
qed

lemma Invoke_build_call:
  assumes "buildIndexes s \<noteq> []"
    and "BuildDeferredIndexes lib c (build_request data sc co (buildIndexes s)) (remote s) = (out, w1)"
  shows "calls (Invoke_build lib c data sc co s)
           = calls s @ [BuildCall (build_request data sc co (buildIndexes s)) out]"
    and "remote (Invoke_build lib c data sc co s) = w1"
  using assms by (auto simp add: Invoke_build_def Let_def split: prod.splits option.splits)

lemma Invoke_build_replay:
  assumes "replay lib polls c (calls s) w0 = Some (remote s)"
  shows "replay lib polls c (calls (Invoke_build lib c data sc co s)) w0
           = Some (remote (Invoke_build lib c data sc co s))"
proof (cases "buildIndexes s = []")
  case True
  then show ?thesis using assms by (simp add: Invoke_build_empty)
next
  case False
  obtain out w1 where b:
    "BuildDeferredIndexes lib c (build_request data sc co (buildIndexes s)) (remote s) = (out, w1)"
    by (metis surj_pair)
  have "replay lib polls c (calls s @ [BuildCall (build_request data sc co (buildIndexes s)) out]) w0
          = Some w1"
    using assms b by (simp add: replay_append)
  then show ?thesis by (simp add: Invoke_build_call [OF False b])
qed

lemma Invoke_not_read_remote:
  assumes "m_IndexNames (Config_data req) = TfList ds names"
    and "HasError (Config_diags req) \<or> HasError ds"
  shows "remote (Invoke lib polls c req w) = w"
  using assms by (auto simp add: Invoke_def Let_def HasError_Append)

lemma Invoke_replay:
  "replay lib polls c (calls (Invoke lib polls c req w)) w = Some (remote (Invoke lib polls c req w))"
proof -
  let ?sc = "default_name (m_ScopeName (Config_data req))"
  let ?co = "default_name (m_CollectionName (Config_data req))"
  obtain ds names where el: "m_IndexNames (Config_data req) = TfList ds names"
    by (cases "m_IndexNames (Config_data req)") auto
  show ?thesis
  proof (cases "HasError (Config_diags req) \<or> HasError ds")
    case True
    with el show ?thesis by (simp add: Invoke_not_read(1) Invoke_not_read_remote)
  next
    case False
    let ?s2 = "Invoke_loop lib polls c (Config_data req) ?sc ?co names
                 (start (Append (Append [] (Config_diags req)) ds) w)"
    have loop: "replay lib polls c (calls ?s2) w = Some (remote ?s2)"
      by (rule Invoke_loop_replay) (simp add: start_def)
    have build: "replay lib polls c (calls (Invoke_build lib c (Config_data req) ?sc ?co ?s2)) w
                   = Some (remote (Invoke_build lib c (Config_data req) ?sc ?co ?s2))"
      using loop by (rule Invoke_build_replay)
    have "Invoke lib polls c req w =
            (if control ?s2 = Running then Invoke_build lib c (Config_data req) ?sc ?co ?s2 else ?s2)"
      using Invoke_read [OF _ el, of lib polls c w] False by (simp add: Let_def)
    then show ?thesis using loop build by simp
  qed
qed

lemma replay_butlast:
  assumes "replay lib polls c (xs @ [e]) w = Some w2"
  shows "\<exists>w1. replay lib polls c xs w = Some w1 \<and> perform lib polls c e w1 = Some w2"
  using assms by (auto simp add: replay_append split: option.splits)

subsection \<open>The requests on the wire\<close>

lemma recording_fields:
  "BaseURL (recording c) = BaseURL c" "Auth (recording c) = Auth c"
  "UserAgent (recording c) = UserAgent c"
  "HTTP (recording c) rq lw = (case HTTP c rq (snd lw) of (r, w') \<Rightarrow> (r, (fst lw @ [rq], w')))"
  by (simp_all add: recording_def)

lemma Do_request_recording:
  "Do_request lib (recording c) method p query body = Do_request lib c method p query body"
  unfolding Do_request_def Do_url_def recording_fields by (rule refl)

lemma Do_recording:
  "Do lib (recording c) method p query body out lw =
     (case Do lib c method p query body out (snd lw) of
        (res, w') \<Rightarrow> (res, (fst lw @ sent lib c method p query body, w')))"
proof (cases "Do_request lib c method p query body")
  case (Inl e)
  then show ?thesis
    by (cases lw) (simp add: Do_def Do_request_recording sent_def)
next
  case (Inr rq)
  obtain r w' where h: "HTTP c rq (snd lw) = (r, w')" by (metis surj_pair)
  show ?thesis
  proof (cases r)
    case (Inl e)
    with Inr h show ?thesis
      by (simp add: Do_def Do_request_recording sent_def recording_fields)
  next
    case r: (Inr resp)
    show ?thesis
    proof (cases "StatusCode resp < 200 \<or> StatusCode resp \<ge> 300")
      case True
      with Inr h r show ?thesis
        by (simp add: Do_def Do_request_recording sent_def recording_fields)
    next
      case False
      with Inr h r show ?thesis
        by (simp add: Do_def Do_request_recording sent_def recording_fields
            split: option.splits decoded.splits)
    qed
  qed
qed

lemma GetIndexBuildStatus_recording:
  "GetIndexBuildStatus lib (recording c) r lw =
     (case GetIndexBuildStatus lib c r (snd lw) of
        (out, w') \<Rightarrow> (out, (fst lw @ status_sent lib c r, w')))"
  by (simp add: GetIndexBuildStatus_def Get_def Do_recording status_sent_def split: prod.splits)

lemma BuildDeferredIndexes_recording:
  "BuildDeferredIndexes lib (recording c) r lw =
     (case BuildDeferredIndexes lib c r (snd lw) of
        (out, w') \<Rightarrow> (out, (fst lw @ build_sent lib c r, w')))"
  by (simp add: BuildDeferredIndexes_def Post_def Do_recording build_sent_def split: prod.splits)

lemma Wait_recording:
  "\<exists>new. WaitForScheduledIndexCreation lib polls (recording c) r lw =
           (case WaitForScheduledIndexCreation lib polls c r (snd lw) of
              (out, w') \<Rightarrow> (out, (fst lw @ new, w')))
         \<and> set new \<subseteq> set (status_sent lib c r)"
proof (induction polls arbitrary: lw)
  case 0
  show ?case by (rule exI [of _ "[]"]) simp
next
  case (Suc polls)
  obtain res err w1 where g: "GetIndexBuildStatus lib c r (snd lw) = ((res, err), w1)"
    by (metis surj_pair)
  then have gr: "GetIndexBuildStatus lib (recording c) r lw
                   = ((res, err), (fst lw @ status_sent lib c r, w1))"
    by (simp add: GetIndexBuildStatus_recording)
  have stop: ?case
    if "WaitForScheduledIndexCreation lib (Suc polls) c r (snd lw) = ((res, err), w1)"
      and "WaitForScheduledIndexCreation lib (Suc polls) (recording c) r lw
             = ((res, err), (fst lw @ status_sent lib c r, w1))"
    using that by (intro exI [of _ "status_sent lib c r"]) simp
  show ?case
  proof (cases err)
    case (Some e)
    show ?thesis by (rule stop) (simp_all add: g gr Some)
  next
    case None
    show ?thesis
    proof (cases res)
      case n: None
      show ?thesis by (rule stop) (simp_all add: g gr None n)
    next
      case (Some x)
      show ?thesis
      proof (cases "Status x = ''Scheduled for Creation''")
        case False
        show ?thesis by (rule stop) (simp_all add: g gr None Some False)
      next
        case True
        from Suc.IH [of "(fst lw @ status_sent lib c r, w1)"]
        obtain new where n:
          "WaitForScheduledIndexCreation lib polls (recording c) r (fst lw @ status_sent lib c r, w1) =
             (case WaitForScheduledIndexCreation lib polls c r w1 of
                (out, w') \<Rightarrow> (out, ((fst lw @ status_sent lib c r) @ new, w')))"
          "set new \<subseteq> set (status_sent lib c r)"
          by auto
        have a: "WaitForScheduledIndexCreation lib (Suc polls) (recording c) r lw
                   = WaitForScheduledIndexCreation lib polls (recording c) r
                       (fst lw @ status_sent lib c r, w1)"
          by (simp add: gr None Some True)
        have b: "WaitForScheduledIndexCreation lib (Suc polls) c r (snd lw)
                   = WaitForScheduledIndexCreation lib polls c r w1"
          by (simp add: g None Some True)
        show ?thesis
          unfolding a b n(1) using n(2)
          by (intro exI [of _ "status_sent lib c r @ new"]) simp
      qed
    qed
  qed
qed

lemma observe_fields:
  "Diagnostics (observe s) = Diagnostics s" "Progress (observe s) = Progress s"
  "buildIndexes (observe s) = buildIndexes s" "control (observe s) = control s"
  "calls (observe s) = calls s" "remote (observe s) = snd (remote s)"
  by (simp_all add: observe_def)

lemma Invoke_index_recording:
  fixes s :: "(Request list \<times> 'w) invocation"
  shows "observe (Invoke_index lib polls (recording c) data sc co n s)
           = Invoke_index lib polls c data sc co n (observe s)
         \<and> (\<exists>new. fst (remote (Invoke_index lib polls (recording c) data sc co n s))
                     = fst (remote s) @ new
                   \<and> set new \<subseteq> set (status_sent lib c (status_request data sc co n)))"
proof -
  let ?req = "status_request data sc co n"
  let ?sent = "status_sent lib c ?req"
  show ?thesis
  proof (cases rule: Invoke_index_cases [where lib = lib and c = c and data = data and sc = sc
        and co = co and n = n and s = "observe s" and polls = polls])
    case (status_failed res e w1)
    then have g: "GetIndexBuildStatus lib c ?req (snd (remote s)) = ((res, Some e), w1)"
      by (simp add: observe_fields)
    then have gr: "GetIndexBuildStatus lib (recording c) ?req (remote s)
                     = ((res, Some e), (fst (remote s) @ ?sent, w1))"
      by (simp add: GetIndexBuildStatus_recording)
    have "observe (Invoke_index lib polls (recording c) data sc co n s)
            = Invoke_index lib polls c data sc co n (observe s)"
      unfolding Invoke_index_status_failed [OF gr] Invoke_index_status_failed [OF status_failed]
      by (simp add: observe_def)
    moreover have "fst (remote (Invoke_index lib polls (recording c) data sc co n s))
                     = fst (remote s) @ ?sent"
      by (simp add: Invoke_index_status_failed [OF gr])
    ultimately show ?thesis by blast
  next
    case (status_nil w1)
    then have g: "GetIndexBuildStatus lib c ?req (snd (remote s)) = ((None, None), w1)"
      by (simp add: observe_fields)
    then have gr: "GetIndexBuildStatus lib (recording c) ?req (remote s)
                     = ((None, None), (fst (remote s) @ ?sent, w1))"
      by (simp add: GetIndexBuildStatus_recording)
    have "observe (Invoke_index lib polls (recording c) data sc co n s)
            = Invoke_index lib polls c data sc co n (observe s)"
      unfolding Invoke_index_status_nil [OF gr] Invoke_index_status_nil [OF status_nil]
      by (simp add: observe_def)
    moreover have "fst (remote (Invoke_index lib polls (recording c) data sc co n s))
                     = fst (remote s) @ ?sent"
      by (simp add: Invoke_index_status_nil [OF gr])
    ultimately show ?thesis by blast
  next
    case (plain r w1)
    then have g: "GetIndexBuildStatus lib c ?req (snd (remote s)) = ((Some r, None), w1)"
      by (simp add: observe_fields)
    then have gr: "GetIndexBuildStatus lib (recording c) ?req (remote s)
                     = ((Some r, None), (fst (remote s) @ ?sent, w1))"
      by (simp add: GetIndexBuildStatus_recording)
    have "observe (Invoke_index lib polls (recording c) data sc co n s)
            = Invoke_index lib polls c data sc co n (observe s)"
      unfolding Invoke_index_plain [OF gr plain(2)] Invoke_index_plain [OF plain]
      by (simp add: observe_def collect_def)
    moreover have "fst (remote (Invoke_index lib polls (recording c) data sc co n s))
                     = fst (remote s) @ ?sent"
      by (simp add: Invoke_index_plain [OF gr plain(2)] collect_fields)
    ultimately show ?thesis by blast
  next
    case (scheduled r w1 res' err' w2)
    then have g: "GetIndexBuildStatus lib c ?req (snd (remote s)) = ((Some r, None), w1)"
      by (simp add: observe_fields)
    then have gr: "GetIndexBuildStatus lib (recording c) ?req (remote s)
                     = ((Some r, None), (fst (remote s) @ ?sent, w1))"
      by (simp add: GetIndexBuildStatus_recording)
    from Wait_recording [of lib polls c ?req "(fst (remote s) @ ?sent, w1)"]
    obtain new where wr:
      "WaitForScheduledIndexCreation lib polls (recording c) ?req (fst (remote s) @ ?sent, w1)
         = ((res', err'), ((fst (remote s) @ ?sent) @ new, w2))"
      and new: "set new \<subseteq> set ?sent"
      using scheduled(3) by auto
    have "observe (Invoke_index lib polls (recording c) data sc co n s)
            = Invoke_index lib polls c data sc co n (observe s)"
      unfolding Invoke_index_scheduled [OF gr scheduled(2) wr] Invoke_index_scheduled [OF scheduled]
      by (simp add: observe_def collect_def Let_def split: option.splits)
    moreover have "fst (remote (Invoke_index lib polls (recording c) data sc co n s))
                     = fst (remote s) @ (?sent @ new)"
      by (simp add: Invoke_index_scheduled [OF gr scheduled(2) wr] collect_fields Let_def
          split: option.splits)
    moreover have "set (?sent @ new) \<subseteq> set ?sent" using new by simp
    ultimately show ?thesis by blast
  qed
qed

lemma Invoke_loop_recording:
  fixes s :: "(Request list \<times> 'w) invocation"
  shows "observe (Invoke_loop lib polls (recording c) data sc co ns s)
           = Invoke_loop lib polls c data sc co ns (observe s)
         \<and> (\<exists>new. fst (remote (Invoke_loop lib polls (recording c) data sc co ns s))
                     = fst (remote s) @ new
                   \<and> (\<forall>rq\<in>set new. \<exists>n. rq \<in> set (status_sent lib c (status_request data sc co n))))"
proof (induction ns arbitrary: s)
  case Nil
  show ?case by simp
next
  case (Cons n ns)
  let ?r = "Invoke_index lib polls (recording c) data sc co n s"
  from Invoke_index_recording [of lib polls c data sc co n s]
  obtain new where step: "observe ?r = Invoke_index lib polls c data sc co n (observe s)"
    "fst (remote ?r) = fst (remote s) @ new"
    "set new \<subseteq> set (status_sent lib c (status_request data sc co n))"
    by auto
  have ctl: "control (Invoke_index lib polls c data sc co n (observe s)) = control ?r"
    using step(1) [symmetric] by (simp add: observe_fields)
  show ?case
  proof (cases "control ?r = Running")
    case False
    then show ?thesis
      using step ctl by (auto simp add: Let_def)
  next
    case True
    from Cons.IH [of ?r]
    obtain new' where ih:
      "observe (Invoke_loop lib polls (recording c) data sc co ns ?r)
         = Invoke_loop lib polls c data sc co ns (observe ?r)"
      "fst (remote (Invoke_loop lib polls (recording c) data sc co ns ?r)) = fst (remote ?r) @ new'"
      "\<forall>rq\<in>set new'. \<exists>n. rq \<in> set (status_sent lib c (status_request data sc co n))"
      by auto
    have "observe (Invoke_loop lib polls (recording c) data sc co (n # ns) s)
           = Invoke_loop lib polls c data sc co (n # ns) (observe s)"
      using True ctl ih(1) step(1) by (simp add: Let_def)
    moreover have "fst (remote (Invoke_loop lib polls (recording c) data sc co (n # ns) s))
                     = fst (remote s) @ (new @ new')"
      using True ih(2) step(2) by (simp add: Let_def)
    moreover have "\<forall>rq\<in>set (new @ new'). \<exists>n. rq \<in> set (status_sent lib c (status_request data sc co n))"
      using step(3) ih(3) by auto
    ultimately show ?thesis by blast
  qed
qed

lemma Invoke_build_recording:
  fixes s :: "(Request list \<times> 'w) invocation"
  shows "observe (Invoke_build lib (recording c) data sc co s)
           = Invoke_build lib c data sc co (observe s)
         \<and> (\<exists>new. fst (remote (Invoke_build lib (recording c) data sc co s)) = fst (remote s) @ new
                   \<and> set new \<subseteq> set (build_sent lib c (build_request data sc co (buildIndexes s))))"
proof (cases "buildIndexes s = []")
  case True
  then have "buildIndexes (observe s) = []" by (simp add: observe_fields)
  then have "observe (Invoke_build lib (recording c) data sc co s)
           = Invoke_build lib c data sc co (observe s)"
    unfolding Invoke_build_empty [OF True] Invoke_build_empty [OF \<open>buildIndexes (observe s) = []\<close>]
    by (simp add: observe_def)
  moreover have "fst (remote (Invoke_build lib (recording c) data sc co s)) = fst (remote s) @ []"
    using True by (simp add: Invoke_build_empty)
  ultimately show ?thesis by (metis empty_set empty_subsetI)
next
  case False
  let ?b = "build_request data sc co (buildIndexes s)"
  obtain res err w1 where b: "BuildDeferredIndexes lib c ?b (snd (remote s)) = ((res, err), w1)"
    by (metis surj_pair)
  then have br: "BuildDeferredIndexes lib (recording c) ?b (remote s)
                   = ((res, err), (fst (remote s) @ build_sent lib c ?b, w1))"
    by (simp add: BuildDeferredIndexes_recording)
  have "observe (Invoke_build lib (recording c) data sc co s)
           = Invoke_build lib c data sc co (observe s)"
    using False b br
    by (simp add: Invoke_build_def observe_fields Let_def split: option.splits)
  moreover have "fst (remote (Invoke_build lib (recording c) data sc co s))
                   = fst (remote s) @ build_sent lib c ?b"
    using False br by (simp add: Invoke_build_def Let_def split: option.splits)
  ultimately show ?thesis by blast
qed

lemma Do_request_kept:
  assumes "Do_request lib c method p query body = Inr rq" and "auth_keeps c"
  shows "Method rq = method \<and> Body rq = body \<and> Do_url lib c p query = Inr (Target rq)"
proof (cases "Do_url lib c p query")
  case (Inl e)
  with assms(1) show ?thesis by (simp add: Do_request_def)
next
  case (Inr u)
  show ?thesis
  proof (cases "Auth c")
    case None
    with assms(1) Inr show ?thesis
      by (auto simp add: Do_request_def Let_def split: option.splits if_splits)
  next
    case (Some a)
    with assms(2) have k: "keeps_request a" by (simp add: auth_keeps_def)
    obtain req3 where r3: "a req3 = (rq, None)" "Method req3 = method" "Target req3 = u"
      "Body req3 = body"
      using assms(1) Inr Some
      by (auto simp add: Do_request_def Let_def split: option.splits if_splits prod.splits)
    from k have "Method (fst (a req3)) = Method req3" "Target (fst (a req3)) = Target req3"
      "Body (fst (a req3)) = Body req3"
      by (simp_all add: keeps_request_def)
    with r3 Inr show ?thesis by simp
  qed
qed

lemma Do_url_status_params:
  assumes "Do_url lib c p (status_params r) = Inr u"
  shows "Values u ''bucket'' = Some [Bucket r] \<and> Values u ''scope'' = Some [Scope r]
         \<and> Values u ''collection'' = Some [Collection r]"
  using assms
  by (auto simp add: Do_url_def status_params_def split: option.splits sum.splits if_splits)

lemma status_sent_wire:
  assumes "rq \<in> set (status_sent lib c r)" and "auth_keeps c"
  shows "Method rq = ''GET'' \<and> Values (Target rq) ''bucket'' = Some [Bucket r]
         \<and> Values (Target rq) ''scope'' = Some [Scope r]
         \<and> Values (Target rq) ''collection'' = Some [Collection r]"
proof -
  from assms(1) have "Do_request lib c ''GET'' (status_path lib r) (status_params r) None = Inr rq"
    by (auto simp add: status_sent_def sent_def split: sum.splits)
  from Do_request_kept [OF this assms(2)] show ?thesis
    using Do_url_status_params [of lib c "status_path lib r" r "Target rq"] by simp
qed

lemma build_sent_wire:
  assumes "rq \<in> set (build_sent lib c r)" and "auth_keeps c"
  shows "Method rq = ''POST'' \<and> Body rq = Some (build_definition r)"
proof -
  from assms(1) have "Do_request lib c ''POST'' (build_path r) [] (Some (build_definition r)) = Inr rq"
    by (auto simp add: build_sent_def sent_def split: sum.splits)
  from Do_request_kept [OF this assms(2)] show ?thesis by simp
qed

lemma on_wire_status:
  assumes "rq \<in> set (status_sent lib c (status_request data sc co n))" and "auth_keeps c"
  shows "on_wire sc co b rq"
  using status_sent_wire [OF assms] by (simp add: on_wire_def status_request_def)

lemma HasPrefix_append: "HasPrefix (pre @ rest) pre"
  by (simp add: HasPrefix_def)

lemma on_wire_build:
  assumes "rq \<in> set (build_sent lib c (build_request data sc co ns))" and "auth_keeps c"
  shows "on_wire sc co (ValueString (m_BucketName data)) rq"
proof -
  let ?pre = "''BUILD INDEX ON `'' @ ValueString (m_BucketName data) @ ''`.`'' @ sc @ ''`.`'' @ co @ ''`(''"
  have "Definition (build_definition (build_request data sc co ns)) = ?pre @ (Join ns '', '' @ '')'')"
    by (simp add: build_definition_def build_request_def)
  then have "HasPrefix (Definition (build_definition (build_request data sc co ns))) ?pre"
    by (simp only: HasPrefix_append)
  with build_sent_wire [OF assms] show ?thesis
    by (simp add: on_wire_def del: append.simps append_assoc)
qed

lemma observe_start: "observe (start ds (log, w)) = start ds w"
  by (simp add: observe_def start_def)

lemma Invoke_recording:
  "observe (Invoke lib polls (recording c) req (log, w)) = Invoke lib polls c req w
   \<and> (\<exists>new. fst (remote (Invoke lib polls (recording c) req (log, w))) = log @ new
         \<and> (\<forall>rq\<in>set new.
               (\<exists>n. rq \<in> set (status_sent lib c
                        (status_request (Config_data req)
                           (default_name (m_ScopeName (Config_data req)))
                           (default_name (m_CollectionName (Config_data req))) n)))
               \<or> (\<exists>ns. rq \<in> set (build_sent lib c
                        (build_request (Config_data req)
                           (default_name (m_ScopeName (Config_data req)))
                           (default_name (m_CollectionName (Config_data req))) ns)))))"
proof -
  let ?d = "Config_data req"
  let ?sc = "default_name (m_ScopeName ?d)"
  let ?co = "default_name (m_CollectionName ?d)"
  obtain ds names where el: "m_IndexNames ?d = TfList ds names"
    by (cases "m_IndexNames ?d") auto
  show ?thesis
  proof (cases "HasError (Config_diags req) \<or> HasError ds")
    case True
    have "observe (Invoke lib polls (recording c) req (log, w)) = Invoke lib polls c req w"
      using True el by (auto simp add: Invoke_def Let_def HasError_Append observe_def)
    moreover have "fst (remote (Invoke lib polls (recording c) req (log, w))) = log @ []"
      using Invoke_not_read_remote [OF el True, of lib polls "recording c" "(log, w)"] by simp
    ultimately show ?thesis by (metis empty_iff empty_set)
  next
    case False
    let ?ds = "Append (Append [] (Config_diags req)) ds"
    let ?r2 = "Invoke_loop lib polls (recording c) ?d ?sc ?co names (start ?ds (log, w))"
    let ?s2 = "Invoke_loop lib polls c ?d ?sc ?co names (start ?ds w)"
    have ir: "Invoke lib polls (recording c) req (log, w) =
            (if control ?r2 = Running then Invoke_build lib (recording c) ?d ?sc ?co ?r2 else ?r2)"
      using Invoke_read [OF _ el, of lib polls "recording c" "(log, w)"] False by (simp add: Let_def)
    have ic: "Invoke lib polls c req w =
            (if control ?s2 = Running then Invoke_build lib c ?d ?sc ?co ?s2 else ?s2)"
      using Invoke_read [OF _ el, of lib polls c w] False by (simp add: Let_def)
    from Invoke_loop_recording [of lib polls c ?d ?sc ?co names "start ?ds (log, w)"]
    obtain new where loop: "observe ?r2 = ?s2" "fst (remote ?r2) = log @ new"
      "\<forall>rq\<in>set new. \<exists>n. rq \<in> set (status_sent lib c (status_request ?d ?sc ?co n))"
      by (auto simp add: observe_start start_fields)
    have ctl: "control ?s2 = control ?r2"
      using loop(1) [symmetric] by (simp add: observe_fields)
    show ?thesis
    proof (cases "control ?r2 = Running")
      case False
      then show ?thesis using ir ic ctl loop by auto
    next
      case True
      from Invoke_build_recording [of lib c ?d ?sc ?co ?r2]
      obtain new' where build:
        "observe (Invoke_build lib (recording c) ?d ?sc ?co ?r2) = Invoke_build lib c ?d ?sc ?co ?s2"
        "fst (remote (Invoke_build lib (recording c) ?d ?sc ?co ?r2)) = (log @ new) @ new'"
        "set new' \<subseteq> set (build_sent lib c (build_request ?d ?sc ?co (buildIndexes ?r2)))"
        using loop(1,2) by auto
      have "observe (Invoke lib polls (recording c) req (log, w)) = Invoke lib polls c req w"
        using True ir ic ctl build(1) by simp
      moreover have "fst (remote (Invoke lib polls (recording c) req (log, w))) = log @ (new @ new')"
        using True ir build(2) by simp
      moreover have "\<forall>rq\<in>set (new @ new').
               (\<exists>n. rq \<in> set (status_sent lib c (status_request ?d ?sc ?co n)))
               \<or> (\<exists>ns. rq \<in> set (build_sent lib c (build_request ?d ?sc ?co ns)))"
        using loop(3) build(3) by auto
      ultimately show ?thesis by blast
    qed
  qed
qed

lemma Invoke_on_wire:
  assumes "auth_keeps c"
  shows "\<forall>rq\<in>set (fst (remote (Invoke lib polls (recording c) req ([], w)))).
           on_wire (default_name (m_ScopeName (Config_data req)))
             (default_name (m_CollectionName (Config_data req)))
             (ValueString (m_BucketName (Config_data req))) rq"
proof -
  from Invoke_recording [of lib polls c req "[]" w]
  obtain new where n: "fst (remote (Invoke lib polls (recording c) req ([], w))) = new"
    "\<forall>rq\<in>set new.
               (\<exists>n. rq \<in> set (status_sent lib c
                        (status_request (Config_data req)
                           (default_name (m_ScopeName (Config_data req)))
                           (default_name (m_CollectionName (Config_data req))) n)))
               \<or> (\<exists>ns. rq \<in> set (build_sent lib c
                        (build_request (Config_data req)
                           (default_name (m_ScopeName (Config_data req)))
                           (default_name (m_CollectionName (Config_data req))) ns)))"
    by auto
  show ?thesis
    unfolding n(1) using n(2) on_wire_status [OF _ assms] on_wire_build [OF _ assms] by blast
qed

lemma keeps_request_bearer: "keeps_request (BearerTokenAuth_Apply token)"
  by (simp add: keeps_request_def BearerTokenAuth_Apply_def)

lemma test_auth_keeps: "auth_keeps test_client"
  by (simp add: auth_keeps_def test_client_def keeps_request_bearer)

subsection \<open>The batch of an invocation\<close>

lemma Invoke_index_reports_other_calls:
  assumes "\<forall>e\<in>set (calls (Invoke_index lib polls c data sc co n s)). reports_other e"
  shows "map status_index (calls (Invoke_index lib polls c data sc co n s))
           = map status_index (calls s) @ [Some n]"
proof (cases rule: Invoke_index_cases [where lib = lib and c = c and data = data and sc = sc and co = co and n = n and s = s and polls = polls])
  case (status_failed res e w1)
  then show ?thesis using assms
    by (simp add: Invoke_index_status_failed returned_status_def split: option.splits)
next
  case (status_nil w1)
  then show ?thesis using assms
    by (simp add: Invoke_index_status_nil returned_status_def)
next
  case (plain r w1)
  then show ?thesis
    by (simp add: Invoke_index_plain collect_fields status_request_def)
next
  case (scheduled r w1 res' err' w2)
  have "StatusCall (status_request data sc co n) (Some r, None)
          \<in> set (calls (Invoke_index lib polls c data sc co n s))"
    by (simp add: Invoke_index_scheduled [OF scheduled] collect_fields Let_def split: option.splits)
  with assms have "reports_other (StatusCall (status_request data sc co n) (Some r, None))"
    by blast
  with scheduled(2) show ?thesis by (simp add: returned_status_def)
qed

lemma Invoke_loop_reports_other_calls:
  assumes "\<forall>e\<in>set (calls (Invoke_loop lib polls c data sc co ns s)). reports_other e"
    and "control s = Running"
  shows "map status_index (calls (Invoke_loop lib polls c data sc co ns s))
           = map status_index (calls s) @ map Some ns"
  using assms
proof (induction ns arbitrary: s)
  case Nil
  then show ?case by simp
next
  case (Cons n ns)
  let ?s' = "Invoke_index lib polls c data sc co n s"
  have sub: "set (calls ?s') \<subseteq> set (calls (Invoke_loop lib polls c data sc co (n # ns) s))"
    using Invoke_loop_calls_mono [of ?s' lib polls c data sc co ns] by (simp add: Let_def)
  then have o: "\<forall>e\<in>set (calls ?s'). reports_other e"
    using Cons.prems(1) by blast
  then have step: "control ?s' = Running"
    using Invoke_index_reports_other [of lib polls c data sc co n s] Cons.prems(2) by simp
  have sc: "map status_index (calls ?s') = map status_index (calls s) @ [Some n]"
    using o by (rule Invoke_index_reports_other_calls)
  have "\<forall>e\<in>set (calls (Invoke_loop lib polls c data sc co ns ?s')). reports_other e"
    using Cons.prems(1) step by (simp add: Let_def)
  from Cons.IH [OF this step] step sc show ?case
    by (simp add: Let_def)
qed

text \<open>
  C1: when the configuration is read without an error, the list of requested index names
  is not empty, and every status that the invocation obtains is \<^verbatim>\<open>Created\<close> (for an index
  first reported as scheduled: the status that the wait returns), the invocation makes
  exactly one build call, and the index names of that call are the requested names in
  their order.  The build call is the last call; the remote world at the end is the one
  that \<^verbatim>\<open>BuildDeferredIndexes\<close> leaves when it is called, with these names, on the remote
  world that the calls before it leave; and the calls of the invocation, made one after the
  other on the remote world at the start, return what the invocation saw and leave the
  remote world of the end, so that nothing else has reached the remote service.
\<close>

theorem all_Created_one_build_call:
  assumes "\<not> HasError (Config_diags req)"
    and "m_IndexNames (Config_data req) = TfList ds names"
    and "\<not> HasError ds"
    and "names \<noteq> []"
    and "\<forall>e\<in>set (calls (Invoke lib polls c req w)). reports_Created e"
  shows "List.map_filter built (calls (Invoke lib polls c req w)) = [names]
         \<and> replay lib polls c (calls (Invoke lib polls c req w)) w
             = Some (remote (Invoke lib polls c req w))
         \<and> (\<exists>out w1.
               last (calls (Invoke lib polls c req w))
                 = BuildCall (build_request (Config_data req)
                     (default_name (m_ScopeName (Config_data req)))
                     (default_name (m_CollectionName (Config_data req))) names) out
               \<and> List.map_filter built (butlast (calls (Invoke lib polls c req w))) = []
               \<and> replay lib polls c (butlast (calls (Invoke lib polls c req w))) w = Some w1
               \<and> BuildDeferredIndexes lib c
                   (build_request (Config_data req)
                     (default_name (m_ScopeName (Config_data req)))
                     (default_name (m_CollectionName (Config_data req))) names) w1
                   = (out, remote (Invoke lib polls c req w)))"
proof -
  let ?sc = "default_name (m_ScopeName (Config_data req))"
  let ?co = "default_name (m_CollectionName (Config_data req))"
  let ?s1 = "start (Append (Append [] (Config_diags req)) ds) w"
  let ?s2 = "Invoke_loop lib polls c (Config_data req) ?sc ?co names ?s1"
  let ?b = "build_request (Config_data req) ?sc ?co names"
  have inv: "Invoke lib polls c req w =
               (if control ?s2 = Running then Invoke_build lib c (Config_data req) ?sc ?co ?s2 else ?s2)"
    using Invoke_read [OF assms(1-3), of lib polls c w] by (simp add: Let_def)
  have "set (calls ?s2) \<subseteq> set (calls (Invoke lib polls c req w))"
    using Invoke_build_calls_mono [of ?s2 lib c "Config_data req" ?sc ?co] by (simp add: inv)
  then have "\<forall>e\<in>set (calls ?s2). reports_Created e"
    using assms(5) by blast
  from Invoke_loop_reports_Created [OF this]
  have loop: "control ?s2 = Running" "buildIndexes ?s2 = names"
    by (simp_all add: start_fields)
  have "List.map_filter built (calls ?s2) = List.map_filter built (calls ?s1)"
    by (rule Invoke_loop_built)
  then have nobuild: "List.map_filter built (calls ?s2) = []"
    by (simp add: start_fields List.map_filter_def)
  have rl: "replay lib polls c (calls ?s2) w = Some (remote ?s2)"
    by (rule Invoke_loop_replay) (simp add: start_fields)
  from loop assms(4) have ne: "buildIndexes ?s2 \<noteq> []" by simp
  obtain out w1 where b: "BuildDeferredIndexes lib c ?b (remote ?s2) = (out, w1)"
    by (metis surj_pair)
  then have b': "BuildDeferredIndexes lib c
      (build_request (Config_data req) ?sc ?co (buildIndexes ?s2)) (remote ?s2) = (out, w1)"
    using loop(2) by simp
  have c: "calls (Invoke lib polls c req w) = calls ?s2 @ [BuildCall ?b out]"
    and r: "remote (Invoke lib polls c req w) = w1"
    using Invoke_build_call [OF ne b'] loop by (simp_all add: inv)
  have one: "List.map_filter built (calls (Invoke lib polls c req w)) = [names]"
    using nobuild by (simp add: c map_filter_append map_filter_single build_request_def)
  have all: "replay lib polls c (calls (Invoke lib polls c req w)) w
             = Some (remote (Invoke lib polls c req w))"
    by (rule Invoke_replay)
  have "last (calls (Invoke lib polls c req w)) = BuildCall ?b out
        \<and> List.map_filter built (butlast (calls (Invoke lib polls c req w))) = []
        \<and> replay lib polls c (butlast (calls (Invoke lib polls c req w))) w = Some (remote ?s2)
        \<and> BuildDeferredIndexes lib c ?b (remote ?s2) = (out, remote (Invoke lib polls c req w))"
    using nobuild rl b by (simp add: c r)
  with one all show ?thesis by blast
qed

text \<open>
  C5: when the configuration is read without an error and every status query of the
  invocation returns a status that is neither \<^verbatim>\<open>Created\<close> nor the scheduled state, the
  invocation makes no build call, its batch is empty, its last progress message is
  \<^verbatim>\<open>No indexes need built\<close>, and it returns without an error diagnostic.  Its calls are one
  status query for each requested name, in their order, and nothing else; made one after
  the other on the remote world at the start, they leave the remote world of the end, so
  that no other request has reached the remote service.
\<close>

theorem no_buildable_status_no_build_call:
  assumes "\<not> HasError (Config_diags req)"
    and "m_IndexNames (Config_data req) = TfList ds names"
    and "\<not> HasError ds"
    and "\<forall>e\<in>set (calls (Invoke lib polls c req w)). reports_other e"
  shows "List.map_filter built (calls (Invoke lib polls c req w)) = []
         \<and> buildIndexes (Invoke lib polls c req w) = []
         \<and> last (Progress (Invoke lib polls c req w)) = ''No indexes need built''
         \<and> control (Invoke lib polls c req w) = Returned
         \<and> \<not> HasError (Diagnostics (Invoke lib polls c req w))
         \<and> map status_index (calls (Invoke lib polls c req w)) = map Some names
         \<and> replay lib polls c (calls (Invoke lib polls c req w)) w
             = Some (remote (Invoke lib polls c req w))"
proof -
  let ?sc = "default_name (m_ScopeName (Config_data req))"
  let ?co = "default_name (m_CollectionName (Config_data req))"
  let ?s1 = "start (Append (Append [] (Config_diags req)) ds) w"
  let ?s2 = "Invoke_loop lib polls c (Config_data req) ?sc ?co names ?s1"
  have inv: "Invoke lib polls c req w =
               (if control ?s2 = Running then Invoke_build lib c (Config_data req) ?sc ?co ?s2 else ?s2)"
    using Invoke_read [OF assms(1-3), of lib polls c w] by (simp add: Let_def)
  have "set (calls ?s2) \<subseteq> set (calls (Invoke lib polls c req w))"
    using Invoke_build_calls_mono [of ?s2 lib c "Config_data req" ?sc ?co] by (simp add: inv)
  then have o: "\<forall>e\<in>set (calls ?s2). reports_other e"
    using assms(4) by blast
  from Invoke_loop_reports_other [OF o]
  have loop: "control ?s2 = Running" "buildIndexes ?s2 = []"
    "Diagnostics ?s2 = Append (Append [] (Config_diags req)) ds"
    by (simp_all add: start_fields)
  from Invoke_loop_reports_other_calls [OF o]
  have st: "map status_index (calls ?s2) = map Some names"
    by (simp add: start_fields)
  have "List.map_filter built (calls ?s2) = List.map_filter built (calls ?s1)"
    by (rule Invoke_loop_built)
  then have nobuild: "List.map_filter built (calls ?s2) = []"
    by (simp add: start_fields List.map_filter_def)
  have eq: "Invoke lib polls c req w
          = ?s2\<lparr>Progress := Progress ?s2 @ [''No indexes need built''], control := Returned\<rparr>"
    using loop(1,2) by (simp add: inv Invoke_build_empty)
  have all: "replay lib polls c (calls (Invoke lib polls c req w)) w
             = Some (remote (Invoke lib polls c req w))"
    by (rule Invoke_replay)
  have "List.map_filter built (calls (Invoke lib polls c req w)) = []
         \<and> buildIndexes (Invoke lib polls c req w) = []
         \<and> last (Progress (Invoke lib polls c req w)) = ''No indexes need built''
         \<and> control (Invoke lib polls c req w) = Returned
         \<and> \<not> HasError (Diagnostics (Invoke lib polls c req w))
         \<and> map status_index (calls (Invoke lib polls c req w)) = map Some names"
    using nobuild loop(2,3) st assms(1,3) by (simp add: eq HasError_Append HasError_Nil)
  with all show ?thesis by blast
qed

lemma test_run_Created:
  "calls (Invoke test_lib 3 test_client (test_request [''idx1'', ''idx2''])
            [ok (status_body ''Created''), ok (status_body ''Scheduled for Creation''),
             ok (status_body ''Created''), ok ''{}''])
     = [StatusCall (status_request (Config_data (test_request [])) ''_default'' ''_default'' ''idx1'')
          (Some \<lparr>Status = ''Created''\<rparr>, None),
        StatusCall (status_request (Config_data (test_request [])) ''_default'' ''_default'' ''idx2'')
          (Some \<lparr>Status = ''Scheduled for Creation''\<rparr>, None),
        WaitCall (status_request (Config_data (test_request [])) ''_default'' ''_default'' ''idx2'')
          (Some \<lparr>Status = ''Created''\<rparr>, None),
        BuildCall (build_request (Config_data (test_request [])) ''_default'' ''_default'' [''idx1'', ''idx2''])
          (Some \<lparr>Error = None\<rparr>, None)]"
  by code_simp

lemma test_request_read:
  "\<not> HasError (Config_diags (test_request names))"
  "m_IndexNames (Config_data (test_request names)) = TfList [] names"
  "m_ScopeName (Config_data (test_request names)) = StringNull"
  "m_CollectionName (Config_data (test_request names)) = StringNull"
  by (simp_all add: test_request_def HasError_def)

lemma test_run_Created_more:
  "calls (Invoke test_lib 3 test_client (test_request [''idx1'', ''idx2''])
            [ok (status_body ''Created''), ok (status_body ''Scheduled for Creation''),
             ok (status_body ''Created''), ok ''{}'', ok ''more''])
     = [StatusCall (status_request (Config_data (test_request [])) ''_default'' ''_default'' ''idx1'')
          (Some \<lparr>Status = ''Created''\<rparr>, None),
        StatusCall (status_request (Config_data (test_request [])) ''_default'' ''_default'' ''idx2'')
          (Some \<lparr>Status = ''Scheduled for Creation''\<rparr>, None),
        WaitCall (status_request (Config_data (test_request [])) ''_default'' ''_default'' ''idx2'')
          (Some \<lparr>Status = ''Created''\<rparr>, None),
        BuildCall (build_request (Config_data (test_request [])) ''_default'' ''_default'' [''idx1'', ''idx2''])
          (Some \<lparr>Error = None\<rparr>, None)]"
  "remote (Invoke test_lib 3 test_client (test_request [''idx1'', ''idx2''])
            [ok (status_body ''Created''), ok (status_body ''Scheduled for Creation''),
             ok (status_body ''Created''), ok ''{}'', ok ''more'']) = [ok ''more'']"
  by code_simp+

theorem all_Created_one_build_call_witness:
  "\<not> HasError (Config_diags (test_request [''idx1'', ''idx2'']))
   \<and> m_IndexNames (Config_data (test_request [''idx1'', ''idx2''])) = TfList [] [''idx1'', ''idx2'']
   \<and> list_all reports_Created
        (calls (Invoke test_lib 3 test_client (test_request [''idx1'', ''idx2''])
            [ok (status_body ''Created''), ok (status_body ''Scheduled for Creation''),
             ok (status_body ''Created''), ok ''{}'', ok ''more'']))
   \<and> List.map_filter built (calls (Invoke test_lib 3 test_client (test_request [''idx1'', ''idx2''])
            [ok (status_body ''Created''), ok (status_body ''Scheduled for Creation''),
             ok (status_body ''Created''), ok ''{}'', ok ''more''])) = [[''idx1'', ''idx2'']]
   \<and> replay test_lib 3 test_client
        (calls (Invoke test_lib 3 test_client (test_request [''idx1'', ''idx2''])
            [ok (status_body ''Created''), ok (status_body ''Scheduled for Creation''),
             ok (status_body ''Created''), ok ''{}'', ok ''more'']))
        [ok (status_body ''Created''), ok (status_body ''Scheduled for Creation''),
         ok (status_body ''Created''), ok ''{}'', ok ''more''] = Some [ok ''more'']
   \<and> remote (Invoke test_lib 3 test_client (test_request [''idx1'', ''idx2''])
            [ok (status_body ''Created''), ok (status_body ''Scheduled for Creation''),
             ok (status_body ''Created''), ok ''{}'', ok ''more'']) = [ok ''more'']"
proof -
  have d: "[''idx1'', ''idx2''] \<noteq> []" by simp
  have e: "\<forall>e\<in>set (calls (Invoke test_lib 3 test_client (test_request [''idx1'', ''idx2''])
            [ok (status_body ''Created''), ok (status_body ''Scheduled for Creation''),
             ok (status_body ''Created''), ok ''{}'', ok ''more''])). reports_Created e"
    by (simp add: test_run_Created_more(1) returned_status_def)
  from all_Created_one_build_call [OF test_request_read(1,2) HasError_Nil d e] test_request_read(1,2) e
  show ?thesis by (simp add: list_all_iff test_run_Created_more(2))
qed

lemma test_run_other:
  "calls (Invoke test_lib 3 test_client (test_request [''idx1'', ''idx2''])
            [ok (status_body ''Building''), ok (status_body ''Error''), ok ''{}''])
     = [StatusCall (status_request (Config_data (test_request [])) ''_default'' ''_default'' ''idx1'')
          (Some \<lparr>Status = ''Building''\<rparr>, None),
        StatusCall (status_request (Config_data (test_request [])) ''_default'' ''_default'' ''idx2'')
          (Some \<lparr>Status = ''Error''\<rparr>, None)]"
  "remote (Invoke test_lib 3 test_client (test_request [''idx1'', ''idx2''])
            [ok (status_body ''Building''), ok (status_body ''Error''), ok ''{}'']) = [ok ''{}'']"
  by code_simp+

theorem no_buildable_status_no_build_call_witness:
  "\<not> HasError (Config_diags (test_request [''idx1'', ''idx2'']))
   \<and> m_IndexNames (Config_data (test_request [''idx1'', ''idx2''])) = TfList [] [''idx1'', ''idx2'']
   \<and> list_all reports_other
        (calls (Invoke test_lib 3 test_client (test_request [''idx1'', ''idx2''])
            [ok (status_body ''Building''), ok (status_body ''Error''), ok ''{}'']))
   \<and> List.map_filter built (calls (Invoke test_lib 3 test_client (test_request [''idx1'', ''idx2''])
            [ok (status_body ''Building''), ok (status_body ''Error''), ok ''{}''])) = []
   \<and> last (Progress (Invoke test_lib 3 test_client (test_request [''idx1'', ''idx2''])
            [ok (status_body ''Building''), ok (status_body ''Error''), ok ''{}''])) = ''No indexes need built''
   \<and> \<not> HasError (Diagnostics (Invoke test_lib 3 test_client (test_request [''idx1'', ''idx2''])
            [ok (status_body ''Building''), ok (status_body ''Error''), ok ''{}'']))
   \<and> replay test_lib 3 test_client
        (calls (Invoke test_lib 3 test_client (test_request [''idx1'', ''idx2''])
            [ok (status_body ''Building''), ok (status_body ''Error''), ok ''{}'']))
        [ok (status_body ''Building''), ok (status_body ''Error''), ok ''{}''] = Some [ok ''{}'']
   \<and> remote (Invoke test_lib 3 test_client (test_request [''idx1'', ''idx2''])
            [ok (status_body ''Building''), ok (status_body ''Error''), ok ''{}'']) = [ok ''{}'']"
proof -
  have e: "\<forall>e\<in>set (calls (Invoke test_lib 3 test_client (test_request [''idx1'', ''idx2''])
            [ok (status_body ''Building''), ok (status_body ''Error''), ok ''{}''])). reports_other e"
    by (simp add: test_run_other(1) returned_status_def)
  from no_buildable_status_no_build_call [OF test_request_read(1,2) HasError_Nil e]
    test_request_read(1,2) e
  show ?thesis by (simp add: list_all_iff test_run_other(2))
qed

section \<open>Scope and collection\<close>

text \<open>
  C7: when the scope and the collection of the configuration are null, every status
  query (those of the wait included) has \<^verbatim>\<open>_default\<close> as its query parameters \<^verbatim>\<open>scope\<close> and
  \<^verbatim>\<open>collection\<close>, and the statement of the build call names \<^verbatim>\<open>_default\<close> as scope and as
  collection: the two defaults are computed once, before the loop, and every call of the
  invocation uses them.  This holds of the requests that the transport receives: with a
  client that records them (and behaves as the client does otherwise), and an
  authenticator that leaves method, URL and body alone, every \<^verbatim>\<open>GET\<close> received has
  \<^verbatim>\<open>scope=_default\<close> and \<^verbatim>\<open>collection=_default\<close> in its query, and every other request received
  carries a statement that starts with \<^verbatim>\<open>BUILD INDEX ON\<close>, the bucket and the two defaults.
\<close>

theorem default_namespace:
  assumes "m_ScopeName (Config_data req) = StringNull"
    and "m_CollectionName (Config_data req) = StringNull"
  shows "(\<forall>e\<in>set (calls (Invoke lib polls c req w)). uses_namespace ''_default'' ''_default'' e)
         \<and> observe (Invoke lib polls (recording c) req ([], w)) = Invoke lib polls c req w
         \<and> (auth_keeps c \<longrightarrow>
              (\<forall>rq\<in>set (fst (remote (Invoke lib polls (recording c) req ([], w)))).
                 on_wire ''_default'' ''_default'' (ValueString (m_BucketName (Config_data req))) rq))"
proof -
  have "\<forall>e\<in>set (calls (Invoke lib polls c req w)). uses_namespace ''_default'' ''_default'' e"
    using Invoke_namespace [of lib polls c req w] assms
    by (simp add: default_name_def del: uses_namespace.simps)
  moreover have "observe (Invoke lib polls (recording c) req ([], w)) = Invoke lib polls c req w"
    using Invoke_recording [of lib polls c req "[]" w] by blast
  moreover have "\<forall>rq\<in>set (fst (remote (Invoke lib polls (recording c) req ([], w)))).
                 on_wire ''_default'' ''_default'' (ValueString (m_BucketName (Config_data req))) rq"
    if "auth_keeps c"
    using Invoke_on_wire [OF that, of lib polls req w] assms by (simp add: default_name_def)
  ultimately show ?thesis by blast
qed

lemma test_wire_default:
  "map wire_view (fst (remote (Invoke test_lib 3 (recording test_client)
       (test_request [''idx1'', ''idx2''])
       ([], [ok (status_body ''Created''), ok (status_body ''Scheduled for Creation''),
             ok (status_body ''Created''), ok ''{}'']))))
   = [(''GET'', Some [''_default''], Some [''_default''], None),
      (''GET'', Some [''_default''], Some [''_default''], None),
      (''GET'', Some [''_default''], Some [''_default''], None),
      (''POST'', None, None, Some ''BUILD INDEX ON `b`.`_default`.`_default`(idx1, idx2)'')]"
  by code_simp

theorem default_namespace_witness:
  "m_ScopeName (Config_data (test_request [''idx1'', ''idx2''])) = StringNull
   \<and> m_CollectionName (Config_data (test_request [''idx1'', ''idx2''])) = StringNull
   \<and> auth_keeps test_client
   \<and> list_all (uses_namespace ''_default'' ''_default'')
        (calls (Invoke test_lib 3 test_client (test_request [''idx1'', ''idx2''])
            [ok (status_body ''Created''), ok (status_body ''Scheduled for Creation''),
             ok (status_body ''Created''), ok ''{}'']))
   \<and> StatusCall (status_request (Config_data (test_request [])) ''_default'' ''_default'' ''idx1'')
          (Some \<lparr>Status = ''Created''\<rparr>, None)
        \<in> set (calls (Invoke test_lib 3 test_client (test_request [''idx1'', ''idx2''])
            [ok (status_body ''Created''), ok (status_body ''Scheduled for Creation''),
             ok (status_body ''Created''), ok ''{}'']))
   \<and> list_all (on_wire ''_default'' ''_default'' ''b'')
        (fst (remote (Invoke test_lib 3 (recording test_client) (test_request [''idx1'', ''idx2''])
           ([], [ok (status_body ''Created''), ok (status_body ''Scheduled for Creation''),
                 ok (status_body ''Created''), ok ''{}'']))))
   \<and> map wire_view (fst (remote (Invoke test_lib 3 (recording test_client)
         (test_request [''idx1'', ''idx2''])
         ([], [ok (status_body ''Created''), ok (status_body ''Scheduled for Creation''),
               ok (status_body ''Created''), ok ''{}'']))))
      = [(''GET'', Some [''_default''], Some [''_default''], None),
         (''GET'', Some [''_default''], Some [''_default''], None),
         (''GET'', Some [''_default''], Some [''_default''], None),
         (''POST'', None, None, Some ''BUILD INDEX ON `b`.`_default`.`_default`(idx1, idx2)'')]"
proof -
  have b: "ValueString (m_BucketName (Config_data (test_request [''idx1'', ''idx2'']))) = ''b''"
    by (simp add: test_request_def)
  from default_namespace [where req = "test_request [''idx1'', ''idx2'']" and lib = test_lib
      and polls = 3 and c = test_client
      and w = "[ok (status_body ''Created''), ok (status_body ''Scheduled for Creation''),
                ok (status_body ''Created''), ok ''{}'']"]
    test_request_read(3,4) [of "[''idx1'', ''idx2'']"] test_auth_keeps b
  show ?thesis
    by (simp add: test_run_Created test_wire_default list_all_iff del: uses_namespace.simps)
qed

section \<open>The scheduled state\<close>











section \<open>Explicit names and exact statuses\<close>

text \<open>
  C10: every call of an invocation uses, as scope and as collection, \<^verbatim>\<open>_default\<close> for a
  null attribute and otherwise the value of the attribute as it is; with the empty string
  given for both, the statement of the build call has two empty names between backticks.
  A status other than exactly \<^verbatim>\<open>Created\<close> and exactly \<^verbatim>\<open>Scheduled for Creation\<close> (for
  instance \<^verbatim>\<open>created\<close>) makes the round of the loop one status query and nothing else: no
  wait, the remote world as that query left it, the batch as it was, no diagnostic, and
  the loop goes on.  The names are also those of the requests that the transport receives:
  with a client that records them, and an authenticator that leaves method, URL and body
  alone, every \<^verbatim>\<open>GET\<close> received has them as its query parameters \<^verbatim>\<open>scope\<close> and \<^verbatim>\<open>collection\<close>,
  and every other request received carries a statement that starts with them.
\<close>

theorem names_verbatim_status_exact:
  "(\<forall>e\<in>set (calls (Invoke lib polls c req w)).
      uses_namespace (default_name (m_ScopeName (Config_data req)))
        (default_name (m_CollectionName (Config_data req))) e)
   \<and> default_name StringNull = ''_default''
   \<and> default_name (StringValue x) = x
   \<and> (m_ScopeName (Config_data req) = StringValue '''' \<and> m_CollectionName (Config_data req) = StringValue ''''
        \<and> BuildCall b out \<in> set (calls (Invoke lib polls c req w))
        \<longrightarrow> Definition (build_definition b)
              = ''BUILD INDEX ON `'' @ b_Bucket b @ ''`.``.``('' @ Join (IndexNames b) '', '' @ '')'')
   \<and> (GetIndexBuildStatus lib c (status_request data sc co n) (remote s) = ((Some r, None), w1)
        \<and> Status r \<noteq> ''Created'' \<and> Status r \<noteq> ''Scheduled for Creation''
        \<longrightarrow> calls (Invoke_index lib polls c data sc co n s)
              = calls s @ [StatusCall (status_request data sc co n) (Some r, None)]
            \<and> buildIndexes (Invoke_index lib polls c data sc co n s) = buildIndexes s
            \<and> Diagnostics (Invoke_index lib polls c data sc co n s) = Diagnostics s
            \<and> control (Invoke_index lib polls c data sc co n s) = control s
            \<and> remote (Invoke_index lib polls c data sc co n s) = w1)
   \<and> observe (Invoke lib polls (recording c) req ([], w)) = Invoke lib polls c req w
   \<and> (auth_keeps c \<longrightarrow>
        (\<forall>rq\<in>set (fst (remote (Invoke lib polls (recording c) req ([], w)))).
           on_wire (default_name (m_ScopeName (Config_data req)))
             (default_name (m_CollectionName (Config_data req)))
             (ValueString (m_BucketName (Config_data req))) rq))"
proof -
  have all: "\<forall>e\<in>set (calls (Invoke lib polls c req w)).
      uses_namespace (default_name (m_ScopeName (Config_data req)))
        (default_name (m_CollectionName (Config_data req))) e"
    by (rule Invoke_namespace)
  have null: "default_name StringNull = ''_default''" and val: "default_name (StringValue x) = x"
    by (simp_all add: default_name_def)
  have empty: "Definition (build_definition b)
              = ''BUILD INDEX ON `'' @ b_Bucket b @ ''`.``.``('' @ Join (IndexNames b) '', '' @ '')''"
    if "m_ScopeName (Config_data req) = StringValue ''''"
      and "m_CollectionName (Config_data req) = StringValue ''''"
      and "BuildCall b out \<in> set (calls (Invoke lib polls c req w))"
  proof -
    from all that(3) have "uses_namespace (default_name (m_ScopeName (Config_data req)))
        (default_name (m_CollectionName (Config_data req))) (BuildCall b out)"
      by blast
    then show ?thesis by (simp add: that(1,2) default_name_def)
  qed
  have other: "calls (Invoke_index lib polls c data sc co n s)
              = calls s @ [StatusCall (status_request data sc co n) (Some r, None)]
            \<and> buildIndexes (Invoke_index lib polls c data sc co n s) = buildIndexes s
            \<and> Diagnostics (Invoke_index lib polls c data sc co n s) = Diagnostics s
            \<and> control (Invoke_index lib polls c data sc co n s) = control s
            \<and> remote (Invoke_index lib polls c data sc co n s) = w1"
    if "GetIndexBuildStatus lib c (status_request data sc co n) (remote s) = ((Some r, None), w1)"
      and "Status r \<noteq> ''Created''" and "Status r \<noteq> ''Scheduled for Creation''"
    using that by (simp add: Invoke_index_plain collect_fields)
  have obs: "observe (Invoke lib polls (recording c) req ([], w)) = Invoke lib polls c req w"
    using Invoke_recording [of lib polls c req "[]" w] by blast
  have wire: "\<forall>rq\<in>set (fst (remote (Invoke lib polls (recording c) req ([], w)))).
           on_wire (default_name (m_ScopeName (Config_data req)))
             (default_name (m_CollectionName (Config_data req)))
             (ValueString (m_BucketName (Config_data req))) rq"
    if "auth_keeps c"
    using that by (rule Invoke_on_wire)
  show ?thesis
    using all null val empty other obs wire by (simp del: uses_namespace.simps)
qed

lemma test_run_explicit:
  "calls (Invoke test_lib 3 test_client (explicit_request '''' '''' [''idx1''])
            [ok (status_body ''Created''), ok ''{}''])
     = [StatusCall (status_request (Config_data (test_request [])) '''' '''' ''idx1'')
          (Some \<lparr>Status = ''Created''\<rparr>, None),
        BuildCall (build_request (Config_data (test_request [])) '''' '''' [''idx1''])
          (Some \<lparr>Error = None\<rparr>, None)]"
  by code_simp

lemma test_status_lowercase:
  "GetIndexBuildStatus test_lib test_client
     (status_request (Config_data (test_request [])) ''_default'' ''_default'' ''idx1'')
     (remote (start [] [ok (status_body ''created'')]))
   = ((Some \<lparr>Status = ''created''\<rparr>, None), [])"
  by code_simp

lemma explicit_request_read:
  "m_ScopeName (Config_data (explicit_request sc co names)) = StringValue sc"
  "m_CollectionName (Config_data (explicit_request sc co names)) = StringValue co"
  by (simp_all add: explicit_request_def)

lemma test_wire_explicit:
  "map wire_view (fst (remote (Invoke test_lib 3 (recording test_client)
       (explicit_request '''' '''' [''idx1''])
       ([], [ok (status_body ''Created''), ok ''{}'']))))
   = [(''GET'', Some [''''], Some [''''], None),
      (''POST'', None, None, Some ''BUILD INDEX ON `b`.``.``(idx1)'')]"
  by code_simp

theorem names_verbatim_status_exact_witness:
  "m_ScopeName (Config_data (explicit_request '''' '''' [''idx1''])) = StringValue ''''
   \<and> m_CollectionName (Config_data (explicit_request '''' '''' [''idx1''])) = StringValue ''''
   \<and> BuildCall (build_request (Config_data (test_request [])) '''' '''' [''idx1''])
        (Some \<lparr>Error = None\<rparr>, None)
      \<in> set (calls (Invoke test_lib 3 test_client (explicit_request '''' '''' [''idx1''])
            [ok (status_body ''Created''), ok ''{}'']))
   \<and> Definition (build_definition (build_request (Config_data (test_request [])) '''' '''' [''idx1'']))
      = ''BUILD INDEX ON `b`.``.``(idx1)''
   \<and> GetIndexBuildStatus test_lib test_client
        (status_request (Config_data (test_request [])) ''_default'' ''_default'' ''idx1'')
        (remote (start [] [ok (status_body ''created'')]))
      = ((Some \<lparr>Status = ''created''\<rparr>, None), [])
   \<and> Status \<lparr>Status = ''created''\<rparr> \<noteq> ''Created''
   \<and> Status \<lparr>Status = ''created''\<rparr> \<noteq> ''Scheduled for Creation''
   \<and> buildIndexes (Invoke_index test_lib 3 test_client (Config_data (test_request []))
        ''_default'' ''_default'' ''idx1'' (start [] [ok (status_body ''created'')])) = []
   \<and> Diagnostics (Invoke_index test_lib 3 test_client (Config_data (test_request []))
        ''_default'' ''_default'' ''idx1'' (start [] [ok (status_body ''created'')])) = []
   \<and> remote (Invoke_index test_lib 3 test_client (Config_data (test_request []))
        ''_default'' ''_default'' ''idx1'' (start [] [ok (status_body ''created'')])) = []
   \<and> auth_keeps test_client
   \<and> list_all (on_wire '''' '''' ''b'')
        (fst (remote (Invoke test_lib 3 (recording test_client) (explicit_request '''' '''' [''idx1''])
           ([], [ok (status_body ''Created''), ok ''{}'']))))
   \<and> map wire_view (fst (remote (Invoke test_lib 3 (recording test_client)
         (explicit_request '''' '''' [''idx1''])
         ([], [ok (status_body ''Created''), ok ''{}'']))))
      = [(''GET'', Some [''''], Some [''''], None),
         (''POST'', None, None, Some ''BUILD INDEX ON `b`.``.``(idx1)'')]"
proof -
  have b: "BuildCall (build_request (Config_data (test_request [])) '''' '''' [''idx1''])
        (Some \<lparr>Error = None\<rparr>, None)
      \<in> set (calls (Invoke test_lib 3 test_client (explicit_request '''' '''' [''idx1''])
            [ok (status_body ''Created''), ok ''{}'']))"
    by (simp add: test_run_explicit)
  have bk: "ValueString (m_BucketName (Config_data (explicit_request '''' '''' [''idx1'']))) = ''b''"
    by (simp add: explicit_request_def)
  have dn: "default_name (StringValue '''') = ''''" by (simp add: default_name_def)
  note inst = names_verbatim_status_exact [where req = "explicit_request '''' '''' [''idx1'']"
        and lib = test_lib and polls = 3 and c = test_client
        and w = "[ok (status_body ''Created''), ok ''{}'']"
        and b = "build_request (Config_data (test_request [])) '''' '''' [''idx1'']"
        and out = "(Some \<lparr>Error = None\<rparr>, None)"
        and data = "Config_data (test_request [])" and sc = "''_default''" and co = "''_default''"
        and n = "''idx1''" and s = "start [] [ok (status_body ''created'')]"
        and r = "\<lparr>Status = ''created''\<rparr>" and ?w1.0 = "[]"]
  have d: "Definition (build_definition (build_request (Config_data (test_request [])) '''' '''' [''idx1'']))
             = ''BUILD INDEX ON `'' @ ''b'' @ ''`.``.``('' @ ''idx1'' @ '')''"
    using inst b
    by (simp add: explicit_request_read build_request_def test_request_def Join_def)
  have s: "buildIndexes (Invoke_index test_lib 3 test_client (Config_data (test_request []))
        ''_default'' ''_default'' ''idx1'' (start [] [ok (status_body ''created'')])) = []
     \<and> Diagnostics (Invoke_index test_lib 3 test_client (Config_data (test_request []))
        ''_default'' ''_default'' ''idx1'' (start [] [ok (status_body ''created'')])) = []
     \<and> remote (Invoke_index test_lib 3 test_client (Config_data (test_request []))
        ''_default'' ''_default'' ''idx1'' (start [] [ok (status_body ''created'')])) = []"
    using inst test_status_lowercase
    by (simp add: start_fields)
  have wire: "list_all (on_wire '''' '''' ''b'')
        (fst (remote (Invoke test_lib 3 (recording test_client) (explicit_request '''' '''' [''idx1''])
           ([], [ok (status_body ''Created''), ok ''{}'']))))"
    using inst test_auth_keeps bk dn
    by (simp add: explicit_request_read list_all_iff del: uses_namespace.simps)
  show ?thesis
    using b d s wire test_status_lowercase test_auth_keeps
    by (simp add: explicit_request_read test_wire_explicit)
qed

section \<open>A failed status query\<close>

lemma failed_status_iff: "failed_status e = (\<exists>r res err. e = StatusCall r (res, Some err))"
  by (cases e) auto

lemma Invoke_index_status_index:
  "List.map_filter status_index (calls (Invoke_index lib polls c data sc co n s))
     = List.map_filter status_index (calls s) @ [n]"
proof (cases rule: Invoke_index_cases [where lib = lib and c = c and data = data and sc = sc and co = co and n = n and s = s and polls = polls])
  case (status_failed res e w1)
  then show ?thesis
    by (simp add: Invoke_index_status_failed map_filter_append map_filter_single status_request_def)
next
  case (status_nil w1)
  then show ?thesis
    by (simp add: Invoke_index_status_nil map_filter_append map_filter_single status_request_def)
next
  case (plain r w1)
  then show ?thesis
    by (simp add: Invoke_index_plain collect_fields map_filter_append map_filter_single status_request_def)
next
  case (scheduled r w1 res' err' w2)
  then show ?thesis
    by (simp add: Invoke_index_scheduled [OF scheduled] collect_fields Let_def
        List.map_filter_def status_request_def split: option.splits)
qed

lemma Invoke_index_failure:
  assumes "\<forall>e\<in>set (calls s). \<not> failed_status e"
  shows "(\<forall>e\<in>set (calls (Invoke_index lib polls c data sc co n s)). \<not> failed_status e)
         \<or> (\<exists>res err. calls (Invoke_index lib polls c data sc co n s)
                          = calls s @ [StatusCall (status_request data sc co n) (res, Some err)]
                      \<and> control (Invoke_index lib polls c data sc co n s) = Returned
                      \<and> status_failure n err \<in> set (Diagnostics (Invoke_index lib polls c data sc co n s)))"
proof (cases rule: Invoke_index_cases [where lib = lib and c = c and data = data and sc = sc and co = co and n = n and s = s and polls = polls])
  case (status_failed res e w1)
  then show ?thesis
    by (simp add: Invoke_index_status_failed AddError_def Append_set status_failure_def)
next
  case (status_nil w1)
  then show ?thesis using assms
    by (auto simp add: Invoke_index_status_nil)
next
  case (plain r w1)
  then show ?thesis using assms
    by (auto simp add: Invoke_index_plain collect_fields)
next
  case (scheduled r w1 res' err' w2)
  then show ?thesis using assms
    by (auto simp add: Invoke_index_scheduled [OF scheduled] collect_fields Let_def
        split: option.splits)
qed

lemma Invoke_loop_failure:
  assumes "\<forall>e\<in>set (calls s). \<not> failed_status e"
    and "StatusCall r (res, Some err) \<in> set (calls (Invoke_loop lib polls c data sc co ns s))"
  shows "\<exists>pre post. ns = pre @ IndexName r # post
           \<and> List.map_filter status_index (calls (Invoke_loop lib polls c data sc co ns s))
               = List.map_filter status_index (calls s) @ pre @ [IndexName r]
           \<and> last (calls (Invoke_loop lib polls c data sc co ns s)) = StatusCall r (res, Some err)
           \<and> control (Invoke_loop lib polls c data sc co ns s) = Returned
           \<and> status_failure (IndexName r) err \<in> set (Diagnostics (Invoke_loop lib polls c data sc co ns s))"
  using assms
proof (induction ns arbitrary: s)
  case Nil
  then show ?case by force
next
  case (Cons n ns)
  let ?s' = "Invoke_index lib polls c data sc co n s"
  let ?E = "StatusCall r (res, Some err)"
  note idx = Invoke_index_status_index [of lib polls c data sc co n s]
  from Invoke_index_failure [OF Cons.prems(1), of lib polls c data sc co n]
  show ?case
  proof
    assume none: "\<forall>e\<in>set (calls ?s'). \<not> failed_status e"
    have run: "control ?s' = Running"
    proof (rule ccontr)
      assume "control ?s' \<noteq> Running"
      then have "Invoke_loop lib polls c data sc co (n # ns) s = ?s'" by (simp add: Let_def)
      with Cons.prems(2) none show False by force
    qed
    then have eq: "Invoke_loop lib polls c data sc co (n # ns) s = Invoke_loop lib polls c data sc co ns ?s'"
      by (simp add: Let_def)
    from Cons.IH [OF none] Cons.prems(2) eq
    obtain pre post where ih: "ns = pre @ IndexName r # post"
      "List.map_filter status_index (calls (Invoke_loop lib polls c data sc co ns ?s'))
         = List.map_filter status_index (calls ?s') @ pre @ [IndexName r]"
      "last (calls (Invoke_loop lib polls c data sc co ns ?s')) = ?E"
      "control (Invoke_loop lib polls c data sc co ns ?s') = Returned"
      "status_failure (IndexName r) err \<in> set (Diagnostics (Invoke_loop lib polls c data sc co ns ?s'))"
      by auto
    have "n # ns = (n # pre) @ IndexName r # post" using ih(1) by simp
    moreover have "List.map_filter status_index (calls (Invoke_loop lib polls c data sc co (n # ns) s))
         = List.map_filter status_index (calls s) @ (n # pre) @ [IndexName r]"
      using ih(2) idx eq by simp
    ultimately show ?thesis using ih(3,4,5) eq by metis
  next
    assume "\<exists>res' err'. calls ?s' = calls s @ [StatusCall (status_request data sc co n) (res', Some err')]
               \<and> control ?s' = Returned
               \<and> status_failure n err' \<in> set (Diagnostics ?s')"
    then obtain res' err' where f:
      "calls ?s' = calls s @ [StatusCall (status_request data sc co n) (res', Some err')]"
      "control ?s' = Returned" "status_failure n err' \<in> set (Diagnostics ?s')"
      by auto
    have eq: "Invoke_loop lib polls c data sc co (n # ns) s = ?s'"
      using f(2) by (simp add: Let_def)
    have "?E \<notin> set (calls s)" using Cons.prems(1) by force
    with Cons.prems(2) eq f(1) have E: "?E = StatusCall (status_request data sc co n) (res', Some err')"
      by simp
    then have n: "IndexName r = n" and err: "err' = err"
      by (simp_all add: status_request_def)
    have "n # ns = [] @ IndexName r # ns" using n by simp
    moreover have "List.map_filter status_index (calls (Invoke_loop lib polls c data sc co (n # ns) s))
         = List.map_filter status_index (calls s) @ [] @ [IndexName r]"
      using idx eq n by simp
    moreover have "last (calls (Invoke_loop lib polls c data sc co (n # ns) s)) = ?E"
      using eq f(1) E by simp
    ultimately show ?thesis using eq f(2,3) n err by metis
  qed
qed

text \<open>
  C3: when the configuration is read without an error and a status query of the
  invocation fails, the requested names are some names \<open>pre\<close>, the name of the failed
  query, and some names \<open>post\<close>; the status queries made are those for \<open>pre\<close> and the failed
  one, in this order, and the failed query is the last call; there is no build call; the
  invocation returns, and its diagnostics hold the error
  \<^verbatim>\<open>Get Index Build Status Failed\<close> whose detail names the index of the failed query.
  The remote world at the end is the one that the failed query leaves, on the remote world
  that the calls before it leave: after the failed query nothing reaches the remote
  service.
\<close>

theorem failed_status_query_aborts:
  assumes "\<not> HasError (Config_diags req)"
    and "m_IndexNames (Config_data req) = TfList ds names"
    and "\<not> HasError ds"
    and "StatusCall r (res, Some err) \<in> set (calls (Invoke lib polls c req w))"
  shows "(\<exists>pre post. names = pre @ IndexName r # post
           \<and> List.map_filter status_index (calls (Invoke lib polls c req w)) = pre @ [IndexName r]
           \<and> last (calls (Invoke lib polls c req w)) = StatusCall r (res, Some err)
           \<and> List.map_filter built (calls (Invoke lib polls c req w)) = []
           \<and> control (Invoke lib polls c req w) = Returned
           \<and> ErrorDiagnostic ''Get Index Build Status Failed''
                (''Cannot get index build status for index '' @ IndexName r @ ''.  Error: ''
                   @ error_message err @ ''\<newline>'')
               \<in> set (Diagnostics (Invoke lib polls c req w)))
         \<and> replay lib polls c (calls (Invoke lib polls c req w)) w
             = Some (remote (Invoke lib polls c req w))
         \<and> (\<exists>w1. replay lib polls c (butlast (calls (Invoke lib polls c req w))) w = Some w1
               \<and> GetIndexBuildStatus lib c r w1
                   = ((res, Some err), remote (Invoke lib polls c req w)))"
proof -
  let ?sc = "default_name (m_ScopeName (Config_data req))"
  let ?co = "default_name (m_CollectionName (Config_data req))"
  let ?s1 = "start (Append (Append [] (Config_diags req)) ds) w"
  let ?s2 = "Invoke_loop lib polls c (Config_data req) ?sc ?co names ?s1"
  let ?E = "StatusCall r (res, Some err)"
  let ?S = "Invoke lib polls c req w"
  have inv: "?S = (if control ?s2 = Running then Invoke_build lib c (Config_data req) ?sc ?co ?s2 else ?s2)"
    using Invoke_read [OF assms(1-3), of lib polls c w] by (simp add: Let_def)
  have init: "\<forall>e\<in>set (calls ?s1). \<not> failed_status e"
    by (simp add: start_fields)
  have in_loop: "?E \<in> set (calls ?s2)"
  proof (cases "control ?s2 = Running")
    case False
    with assms(4) inv show ?thesis by simp
  next
    case True
    show ?thesis
    proof (cases "buildIndexes ?s2 = []")
      case True
      with \<open>control ?s2 = Running\<close> assms(4) inv show ?thesis
        by (simp add: Invoke_build_empty)
    next
      case False
      from Invoke_build_calls [OF False, of lib c "Config_data req" ?sc ?co]
      show ?thesis using \<open>control ?s2 = Running\<close> assms(4) inv by auto
    qed
  qed
  from Invoke_loop_failure [OF init in_loop]
  obtain pre post where l: "names = pre @ IndexName r # post"
    "List.map_filter status_index (calls ?s2) = List.map_filter status_index (calls ?s1) @ pre @ [IndexName r]"
    "last (calls ?s2) = ?E" "control ?s2 = Returned"
    "status_failure (IndexName r) err \<in> set (Diagnostics ?s2)"
    by auto
  have res: "?S = ?s2" using inv l(4) by simp
  have "List.map_filter built (calls ?s2) = List.map_filter built (calls ?s1)"
    by (rule Invoke_loop_built)
  then have nobuild: "List.map_filter built (calls ?s2) = []"
    by (simp add: start_fields List.map_filter_def)
  have "List.map_filter status_index (calls ?s2) = pre @ [IndexName r]"
    using l(2) by (simp add: start_fields List.map_filter_def)
  with l(1,3,4,5) nobuild res
  have first: "\<exists>pre post. names = pre @ IndexName r # post
           \<and> List.map_filter status_index (calls ?S) = pre @ [IndexName r]
           \<and> last (calls ?S) = ?E
           \<and> List.map_filter built (calls ?S) = []
           \<and> control ?S = Returned
           \<and> ErrorDiagnostic ''Get Index Build Status Failed''
                (''Cannot get index build status for index '' @ IndexName r @ ''.  Error: ''
                   @ error_message err @ ''\<newline>'')
               \<in> set (Diagnostics ?S)"
    unfolding status_failure_def by metis
  have all: "replay lib polls c (calls ?S) w = Some (remote ?S)"
    by (rule Invoke_replay)
  have "calls ?S \<noteq> []" using assms(4) by auto
  then have split: "calls ?S = butlast (calls ?S) @ [?E]"
    using l(3) res by (metis append_butlast_last_id)
  from all have "replay lib polls c (butlast (calls ?S) @ [?E]) w = Some (remote ?S)"
    using split by simp
  from replay_butlast [OF this]
  obtain w1 where w1: "replay lib polls c (butlast (calls ?S)) w = Some w1"
    "perform lib polls c ?E w1 = Some (remote ?S)"
    by auto
  from w1(2) have "GetIndexBuildStatus lib c r w1 = ((res, Some err), remote ?S)"
    by (auto split: prod.splits if_splits)
  with first all w1(1) show ?thesis by blast
qed

lemma test_run_failure:
  "calls (Invoke test_lib 3 test_client (test_request [''idx1'', ''idx2'', ''idx3''])
            [ok (status_body ''Created''), unauthorized, ok (status_body ''Created''), ok ''{}''])
     = [StatusCall (status_request (Config_data (test_request [])) ''_default'' ''_default'' ''idx1'')
          (Some \<lparr>Status = ''Created''\<rparr>, None),
        StatusCall (status_request (Config_data (test_request [])) ''_default'' ''_default'' ''idx2'')
          (None, Some (ApiStatusError \<lparr>Code = ''unauthorized'', Message = ''no token''\<rparr> 401))]"
  by code_simp

lemma test_run_failure_remote:
  "remote (Invoke test_lib 3 test_client (test_request [''idx1'', ''idx2'', ''idx3''])
            [ok (status_body ''Created''), unauthorized, ok (status_body ''Created''), ok ''{}''])
     = [ok (status_body ''Created''), ok ''{}'']"
  by code_simp

theorem failed_status_query_aborts_witness:
  "\<not> HasError (Config_diags (test_request [''idx1'', ''idx2'', ''idx3'']))
   \<and> m_IndexNames (Config_data (test_request [''idx1'', ''idx2'', ''idx3'']))
       = TfList [] [''idx1'', ''idx2'', ''idx3'']
   \<and> StatusCall (status_request (Config_data (test_request [])) ''_default'' ''_default'' ''idx2'')
          (None, Some (ApiStatusError \<lparr>Code = ''unauthorized'', Message = ''no token''\<rparr> 401))
       \<in> set (calls (Invoke test_lib 3 test_client (test_request [''idx1'', ''idx2'', ''idx3''])
            [ok (status_body ''Created''), unauthorized, ok (status_body ''Created''), ok ''{}'']))
   \<and> List.map_filter built (calls (Invoke test_lib 3 test_client (test_request [''idx1'', ''idx2'', ''idx3''])
            [ok (status_body ''Created''), unauthorized, ok (status_body ''Created''), ok ''{}''])) = []
   \<and> ErrorDiagnostic ''Get Index Build Status Failed''
        ''Cannot get index build status for index idx2.  Error: unauthorized: no token (status 401)\<newline>''
       \<in> set (Diagnostics (Invoke test_lib 3 test_client (test_request [''idx1'', ''idx2'', ''idx3''])
            [ok (status_body ''Created''), unauthorized, ok (status_body ''Created''), ok ''{}'']))
   \<and> replay test_lib 3 test_client
        (calls (Invoke test_lib 3 test_client (test_request [''idx1'', ''idx2'', ''idx3''])
            [ok (status_body ''Created''), unauthorized, ok (status_body ''Created''), ok ''{}'']))
        [ok (status_body ''Created''), unauthorized, ok (status_body ''Created''), ok ''{}'']
       = Some [ok (status_body ''Created''), ok ''{}'']
   \<and> remote (Invoke test_lib 3 test_client (test_request [''idx1'', ''idx2'', ''idx3''])
            [ok (status_body ''Created''), unauthorized, ok (status_body ''Created''), ok ''{}''])
       = [ok (status_body ''Created''), ok ''{}'']"
proof -
  have m: "error_message (ApiStatusError \<lparr>Code = ''unauthorized'', Message = ''no token''\<rparr> 401)
             = ''unauthorized: no token (status 401)''"
    by code_simp
  have e: "StatusCall (status_request (Config_data (test_request [])) ''_default'' ''_default'' ''idx2'')
          (None, Some (ApiStatusError \<lparr>Code = ''unauthorized'', Message = ''no token''\<rparr> 401))
       \<in> set (calls (Invoke test_lib 3 test_client (test_request [''idx1'', ''idx2'', ''idx3''])
            [ok (status_body ''Created''), unauthorized, ok (status_body ''Created''), ok ''{}'']))"
    by (simp add: test_run_failure)
  from failed_status_query_aborts [OF test_request_read(1,2) HasError_Nil e] test_request_read(1,2) e m
  show ?thesis
    by (auto simp: status_request_def test_run_failure_remote simp del: error_message.simps)
qed

section \<open>The empty list of index names\<close>

text \<open>
  C4, as stated, fails: on the empty list of index names the invocation reports no error
  at all; its only output is the progress message \<^verbatim>\<open>No indexes need built\<close>.
\<close>

theorem empty_list_fails_counterexample:
  "m_IndexNames (Config_data (test_request [])) = TfList [] []
   \<and> \<not> HasError (Diagnostics (Invoke test_lib 3 test_client (test_request []) []))
   \<and> Diagnostics (Invoke test_lib 3 test_client (test_request []) []) = []
   \<and> Progress (Invoke test_lib 3 test_client (test_request []) []) = [''No indexes need built'']"
  by code_simp

text \<open>
  C4, amended: when the configuration is read without an error and the list of index names
  is empty, the invocation makes no status query and no build call and leaves the remote
  world as it is; it sends the progress message \<^verbatim>\<open>No indexes need built\<close> and returns
  without an error diagnostic.
\<close>

theorem empty_list_no_call:
  assumes "\<not> HasError (Config_diags req)"
    and "m_IndexNames (Config_data req) = TfList ds []"
    and "\<not> HasError ds"
  shows "calls (Invoke lib polls c req w) = []
         \<and> remote (Invoke lib polls c req w) = w
         \<and> Progress (Invoke lib polls c req w) = [''No indexes need built'']
         \<and> \<not> HasError (Diagnostics (Invoke lib polls c req w))
         \<and> control (Invoke lib polls c req w) = Returned"
  using Invoke_read [OF assms, of lib polls c w] assms(1,3)
  by (simp add: Let_def start_fields Invoke_build_empty HasError_Append HasError_Nil)

theorem empty_list_no_call_witness:
  "\<not> HasError (Config_diags (test_request []))
   \<and> m_IndexNames (Config_data (test_request [])) = TfList [] []
   \<and> calls (Invoke test_lib 3 test_client (test_request []) [ok (status_body ''Created'')]) = []
   \<and> remote (Invoke test_lib 3 test_client (test_request []) [ok (status_body ''Created'')])
       = [ok (status_body ''Created'')]
   \<and> Progress (Invoke test_lib 3 test_client (test_request []) [ok (status_body ''Created'')])
       = [''No indexes need built'']"
  using empty_list_no_call [OF test_request_read(1,2) HasError_Nil, of test_lib 3 test_client
      "[ok (status_body ''Created'')]"] test_request_read(1,2) [of "[]"]
  by simp

section \<open>Responses outside 200 to 299\<close>

text \<open>
  C8, as stated, fails: for the response 401 whose body decodes to the code
  \<^verbatim>\<open>unauthorized\<close> and the message \<^verbatim>\<open>no token\<close>, the message of the error that \<^verbatim>\<open>Do\<close> returns is
  \<^verbatim>\<open>unauthorized: no token (status 401)\<close> and not \<^verbatim>\<open>unauthorized: no token\<close>.
\<close>

theorem status_error_message_counterexample:
  \<open>json_Unmarshal_apiError test_lib ''{"code":"unauthorized","message":"no token"}''
     = Some \<lparr>Code = ''unauthorized'', Message = ''no token''\<rparr>
   \<and> map_option error_message
        (snd (snd (fst (Do test_lib test_client ''GET'' ''whatever'' [] None
                          (Some (json_Decode_status test_lib)) [unauthorized]))))
       = Some ''unauthorized: no token (status 401)''
   \<and> map_option error_message
        (snd (snd (fst (Do test_lib test_client ''GET'' ''whatever'' [] None
                          (Some (json_Decode_status test_lib)) [unauthorized]))))
       \<noteq> Some ''unauthorized: no token''\<close>
  by code_simp

text \<open>
  C8, amended: for every response with a status code outside 200 to 299 that the
  transport returns to \<^verbatim>\<open>Do\<close>, the call returns an error.  When the body decodes to a
  payload with a code or a message, the message of the error is the code, a colon, a space
  and the message when both are present, or the one that is present, followed in each case
  by the status code as \<^verbatim>\<open> (status N)\<close>; when the body does not decode, or decodes to a
  payload with neither, the message is \<^verbatim>\<open>capella api request failed: status N, body: \<close>
  followed by the body.  When the transport returns an error and no response, as the
  retrying transport of \<^verbatim>\<open>NewClient\<close> does for the status codes it retries (429 and 5xx)
  once it gives up, \<^verbatim>\<open>Do\<close> returns that error unchanged and no response.
\<close>

theorem status_error_message:
  "(Do_request lib c meth p query body = Inr rq
      \<and> HTTP c rq w = (Inr resp, w')
      \<and> (StatusCode resp < 200 \<or> 300 \<le> StatusCode resp)
    \<longrightarrow> Do lib c meth p query body out w
          = ((Some resp, None, Some (Do_status_error lib resp)), w')
        \<and> error_message (Do_status_error lib resp)
             = (case json_Unmarshal_apiError lib (RespBody resp) of
                  None \<Rightarrow>
                    ''capella api request failed: status '' @ fmt_d (StatusCode resp)
                      @ '', body: '' @ RespBody resp
                | Some ae \<Rightarrow>
                    if Code ae \<noteq> '''' \<and> Message ae \<noteq> ''''
                    then Code ae @ '': '' @ Message ae @ '' (status '' @ fmt_d (StatusCode resp) @ '')''
                    else if Code ae \<noteq> ''''
                    then Code ae @ '' (status '' @ fmt_d (StatusCode resp) @ '')''
                    else if Message ae \<noteq> ''''
                    then Message ae @ '' (status '' @ fmt_d (StatusCode resp) @ '')''
                    else ''capella api request failed: status '' @ fmt_d (StatusCode resp)
                           @ '', body: '' @ RespBody resp))
   \<and> (Do_request lib c meth p query body = Inr rq \<and> HTTP c rq w = (Inl e, w')
        \<longrightarrow> Do lib c meth p query body out w = ((None, None, Some e), w'))"
proof -
  have "Do lib c meth p query body out w = ((Some resp, None, Some (Do_status_error lib resp)), w')"
    if "Do_request lib c meth p query body = Inr rq" and "HTTP c rq w = (Inr resp, w')"
      and "StatusCode resp < 200 \<or> 300 \<le> StatusCode resp"
    using that by (auto simp add: Do_def)
  moreover have "error_message (Do_status_error lib resp)
             = (case json_Unmarshal_apiError lib (RespBody resp) of
                  None \<Rightarrow>
                    ''capella api request failed: status '' @ fmt_d (StatusCode resp)
                      @ '', body: '' @ RespBody resp
                | Some ae \<Rightarrow>
                    if Code ae \<noteq> '''' \<and> Message ae \<noteq> ''''
                    then Code ae @ '': '' @ Message ae @ '' (status '' @ fmt_d (StatusCode resp) @ '')''
                    else if Code ae \<noteq> ''''
                    then Code ae @ '' (status '' @ fmt_d (StatusCode resp) @ '')''
                    else if Message ae \<noteq> ''''
                    then Message ae @ '' (status '' @ fmt_d (StatusCode resp) @ '')''
                    else ''capella api request failed: status '' @ fmt_d (StatusCode resp)
                           @ '', body: '' @ RespBody resp)"
    by (simp add: Do_status_error_def Let_def apiError_Error_def split: option.splits)
  moreover have "Do lib c meth p query body out w = ((None, None, Some e), w')"
    if "Do_request lib c meth p query body = Inr rq" and "HTTP c rq w = (Inl e, w')"
    using that by (simp add: Do_def)
  ultimately show ?thesis by blast
qed

lemma test_Do_request_whatever:
  "Do_request test_lib test_client ''GET'' ''whatever'' [] None = Inr whatever_request"
  by (simp add: Do_request_def Do_url_def test_lib_def test_client_def HasPrefix_def Let_def
      BearerTokenAuth_Apply_def Header_Set_def whatever_request_def)

theorem status_error_message_witness:
  \<open>Do_request test_lib test_client ''GET'' ''whatever'' [] None = Inr whatever_request
   \<and> HTTP test_client whatever_request [unauthorized]
       = (Inr \<lparr>StatusCode = 401, RespBody = ''{"code":"unauthorized","message":"no token"}''\<rparr>, [])
   \<and> ((401::int) < 200 \<or> (300::int) \<le> 401)
   \<and> error_message (Do_status_error test_lib
         \<lparr>StatusCode = 401, RespBody = ''{"code":"unauthorized","message":"no token"}''\<rparr>)
       = ''unauthorized: no token (status '' @ fmt_d 401 @ '')''
   \<and> HTTP test_client whatever_request [] = (Inl (ErrorString ''connection refused''), [])
   \<and> Do test_lib test_client ''GET'' ''whatever'' [] None (Some (json_Decode_status test_lib)) []
       = ((None, None, Some (ErrorString ''connection refused'')), [])\<close>
proof -
  have h: \<open>HTTP test_client whatever_request [unauthorized]
       = (Inr \<lparr>StatusCode = 401, RespBody = ''{"code":"unauthorized","message":"no token"}''\<rparr>, [])\<close>
    by (simp add: test_client_def unauthorized_def)
  have u: \<open>json_Unmarshal_apiError test_lib ''{"code":"unauthorized","message":"no token"}''
     = Some \<lparr>Code = ''unauthorized'', Message = ''no token''\<rparr>\<close>
    by (simp add: test_lib_def)
  have g: "HTTP test_client whatever_request [] = (Inl (ErrorString ''connection refused''), [])"
    by (simp add: test_client_def)
  have first: \<open>error_message (Do_status_error test_lib
         \<lparr>StatusCode = 401, RespBody = ''{"code":"unauthorized","message":"no token"}''\<rparr>)
       = ''unauthorized: no token (status '' @ fmt_d 401 @ '')''\<close>
    using status_error_message [where lib = test_lib and c = test_client and meth = "''GET''"
        and p = "''whatever''" and query = "[]" and body = None and rq = whatever_request
        and w = "[unauthorized]" and w' = "[]"
        and resp = \<open>\<lparr>StatusCode = 401, RespBody = ''{"code":"unauthorized","message":"no token"}''\<rparr>\<close>
        and out = "None :: (string \<Rightarrow> IndexBuildStatusResponse decoded) option"]
      test_Do_request_whatever h u
    by simp
  have second: "Do test_lib test_client ''GET'' ''whatever'' [] None (Some (json_Decode_status test_lib)) []
       = ((None, None, Some (ErrorString ''connection refused'')), [])"
    using status_error_message [where lib = test_lib and c = test_client and meth = "''GET''"
        and p = "''whatever''" and query = "[]" and body = None and rq = whatever_request
        and w = "[]" and w' = "[]" and e = "ErrorString ''connection refused''"
        and out = "Some (json_Decode_status test_lib)"]
      test_Do_request_whatever g
    by simp
  show ?thesis
    using test_Do_request_whatever h g first second by simp
qed

end
